theory Spec2Isabelle
  imports Complex_Main
begin

section \<open>Trained predictors\<close>

text \<open>
  The tree arrays of a fitted scikit-learn regressor, as
  \<^verbatim>\<open>decisiontrees.py\<close> reads them: \<^verbatim>\<open>tree.capacity\<close>,
  \<^verbatim>\<open>tree.children_left\<close>, \<^verbatim>\<open>tree.children_right\<close>,
  \<^verbatim>\<open>tree.feature\<close>, \<^verbatim>\<open>tree.threshold\<close> and
  \<^verbatim>\<open>tree.value\<close>.  The encoder only goes on when the predictor has one output,
  where \<^verbatim>\<open>tree.value\<close> has shape (nodes, 1, 1): it is kept as one real per node,
  internal nodes included.  Numbers are reals; the rounding of floating-point numbers is
  written out where the encoder converts a threshold and where it adds \<^verbatim>\<open>eps\<close>.
\<close>

record tree =
  capacity :: nat
  children_left :: "int list"
  children_right :: "int list"
  feature :: "int list"
  threshold :: "real list"
  tree_value :: "real list"

record decision_tree_regressor =
  dt_n_outputs :: int
  dt_tree :: tree

record random_forest_regressor =
  rf_n_outputs :: int
  rf_n_estimators :: nat
  rf_estimators :: "decision_tree_regressor list"

text \<open>
  A gradient boosting regressor: \<^verbatim>\<open>n_estimators_\<close>, \<^verbatim>\<open>estimators_\<close> (each stage a
  row of regressors, of which the encoder reads entry 0), \<^verbatim>\<open>learning_rate\<close> and
  \<^verbatim>\<open>init_.constant_\<close> (a matrix, of which the encoder reads entry [0][0]).
\<close>

record gradient_boosting_regressor =
  gb_n_estimators :: nat
  gb_estimators :: "decision_tree_regressor list list"
  gb_learning_rate :: real
  gb_init_constant :: "real list list"

datatype predictor =
  DecisionTree decision_tree_regressor
| RandomForest random_forest_regressor
| GradientBoosting gradient_boosting_regressor

section \<open>Errors\<close>

text \<open>
  \<^verbatim>\<open>NoModel\<close> is the exception of \<^verbatim>\<open>gurobi_ml.exceptions\<close>, raised with the
  predictor and a message.  \<^verbatim>\<open>AssertionError\<close> is what a failed \<^verbatim>\<open>assert\<close>
  raises, \<^verbatim>\<open>IndexError\<close> what an index out of range raises, \<^verbatim>\<open>ValueError\<close>
  what an operation on arrays of different shapes or an empty reduction raises,
  \<^verbatim>\<open>ZeroDivisionError\<close> what Python's division of a float by zero raises.
\<close>

datatype error =
  NoModel predictor string
| AssertionError string
| IndexError
| ValueError
| ZeroDivisionError

definition bindE :: "error + 'a \<Rightarrow> ('a \<Rightarrow> error + 'b) \<Rightarrow> error + 'b" where
  "bindE x f = (case x of Inl e \<Rightarrow> Inl e | Inr a \<Rightarrow> f a)"

fun digit_char :: "nat \<Rightarrow> char" where
  "digit_char n = (''0123456789'' ! n)"

fun format_nat :: "nat \<Rightarrow> string" where
  "format_nat n = (if n < 10 then [digit_char n] else format_nat (n div 10) @ [digit_char (n mod 10)])"

declare format_nat.simps [simp del]

definition format_int :: "int \<Rightarrow> string" where
  "format_int i = (if i < 0 then CHR ''-'' # format_nat (nat (- i)) else format_nat (nat i))"

section \<open>Arrays\<close>

text \<open>
  Integer indexing as numpy does it: an index from \<open>-n\<close> to \<open>n - 1\<close> is accepted,
  a negative one counts from the end, anything else raises \<^verbatim>\<open>IndexError\<close>.
\<close>

definition np_index :: "nat \<Rightarrow> int \<Rightarrow> error + nat" where
  "np_index n i =
     (if 0 \<le> i \<and> i < int n then Inr (nat i)
      else if - int n \<le> i \<and> i < 0 then Inr (nat (i + int n))
      else Inl IndexError)"

definition np_get :: "'a list \<Rightarrow> int \<Rightarrow> error + 'a" where
  "np_get xs i = bindE (np_index (length xs) i) (\<lambda>j. Inr (xs ! j))"

text \<open>The positions a boolean mask selects, in order.\<close>

definition mask_positions :: "bool list \<Rightarrow> nat list" where
  "mask_positions msk = filter (\<lambda>j. msk ! j) [0..<length msk]"

definition np_mask :: "'a list \<Rightarrow> bool list \<Rightarrow> error + 'a list" where
  "np_mask xs msk =
     (if length msk \<noteq> length xs then Inl IndexError
      else Inr (map (\<lambda>j. xs ! j) (mask_positions msk)))"

fun mapE :: "('a \<Rightarrow> error + 'b) \<Rightarrow> 'a list \<Rightarrow> error + 'b list" where
  "mapE f [] = Inr []"
| "mapE f (x # xs) = bindE (f x) (\<lambda>y. bindE (mapE f xs) (\<lambda>ys. Inr (y # ys)))"

text \<open>
  A two-dimensional array (of variables, of linear expressions, of constraints): its shape
  and its entries.  One-dimensional arrays are lists.
\<close>

record 'a ndarray =
  shape0 :: nat
  shape1 :: nat
  item :: "nat \<Rightarrow> nat \<Rightarrow> 'a"

definition elements :: "'a ndarray \<Rightarrow> 'a list" where
  "elements a = concat (map (\<lambda>k. map (\<lambda>j. item a k j) [0..<shape1 a]) [0..<shape0 a])"

text \<open>\<^verbatim>\<open>a[k, j]\<close>\<close>

definition get2 :: "'a ndarray \<Rightarrow> int \<Rightarrow> int \<Rightarrow> error + 'a" where
  "get2 a k j =
     bindE (np_index (shape0 a) k) (\<lambda>k'.
     bindE (np_index (shape1 a) j) (\<lambda>j'. Inr (item a k' j')))"

text \<open>\<^verbatim>\<open>a[:, j]\<close>, a one-dimensional array\<close>

definition column :: "'a ndarray \<Rightarrow> int \<Rightarrow> error + 'a list" where
  "column a j = bindE (np_index (shape1 a) j) (\<lambda>j'. Inr (map (\<lambda>k. item a k j') [0..<shape0 a]))"

text \<open>\<^verbatim>\<open>a[:, mask]\<close> with a boolean mask over the columns\<close>

definition columns_mask :: "'a ndarray \<Rightarrow> bool list \<Rightarrow> error + 'a ndarray" where
  "columns_mask a msk =
     (if length msk \<noteq> shape1 a then Inl IndexError
      else Inr \<lparr>shape0 = shape0 a, shape1 = length (mask_positions msk),
                item = (\<lambda>k j. item a k (mask_positions msk ! j))\<rparr>)"

text \<open>\<^verbatim>\<open>a[:, idx]\<close> with an array of integer indices\<close>

definition columns_take :: "'a ndarray \<Rightarrow> int list \<Rightarrow> error + 'a ndarray" where
  "columns_take a idx =
     bindE (mapE (np_index (shape1 a)) idx) (\<lambda>js.
       Inr \<lparr>shape0 = shape0 a, shape1 = length js, item = (\<lambda>k j. item a k (js ! j))\<rparr>)"

text \<open>An elementwise operation on two arrays, which must have the same shape.\<close>

definition zip_arrays :: "('a \<Rightarrow> 'b \<Rightarrow> 'c) \<Rightarrow> 'a ndarray \<Rightarrow> 'b ndarray \<Rightarrow> error + 'c ndarray" where
  "zip_arrays f a b =
     (if shape0 a = shape0 b \<and> shape1 a = shape1 b
      then Inr \<lparr>shape0 = shape0 a, shape1 = shape1 a, item = (\<lambda>k j. f (item a k j) (item b k j))\<rparr>
      else Inl ValueError)"

definition map_array :: "('a \<Rightarrow> 'b) \<Rightarrow> 'a ndarray \<Rightarrow> 'b ndarray" where
  "map_array f a = \<lparr>shape0 = shape0 a, shape1 = shape1 a, item = (\<lambda>k j. f (item a k j))\<rparr>"

definition zip_lists :: "('a \<Rightarrow> 'b \<Rightarrow> 'c) \<Rightarrow> 'a list \<Rightarrow> 'b list \<Rightarrow> error + 'c list" where
  "zip_lists f xs ys = (if length xs = length ys then Inr (map2 f xs ys) else Inl ValueError)"

text \<open>\<^verbatim>\<open>np.min\<close> and \<^verbatim>\<open>np.max\<close> over all entries; an empty array raises.\<close>

definition np_min :: "real list \<Rightarrow> error + real" where
  "np_min xs = (case xs of [] \<Rightarrow> Inl ValueError | x # ys \<Rightarrow> Inr (fold min ys x))"

definition np_max :: "real list \<Rightarrow> error + real" where
  "np_max xs = (case xs of [] \<Rightarrow> Inl ValueError | x # ys \<Rightarrow> Inr (fold max ys x))"

section \<open>The optimization model\<close>

text \<open>
  What the encoders use of a gurobipy model: variables with a type and bounds, linear
  constraints and indicator constraints.  A variable is its index in the model.  A linear
  expression is a list of (coefficient, variable) terms and a constant.
\<close>

type_synonym var = nat

datatype vtype = CONTINUOUS | BINARY

record var_attrs =
  VType :: vtype
  LB :: real
  UB :: real

datatype linexpr = LinExpr "(real \<times> var) list" real

datatype sense = LESS_EQUAL | GREATER_EQUAL | EQUAL

datatype tempconstr = TempConstr linexpr sense linexpr

text \<open>\<open>Indicator v b c\<close> is \<^verbatim>\<open>(v == b) >> c\<close>.\<close>

datatype constr =
  Linear tempconstr
| Indicator var bool tempconstr

record model =
  vars :: "var_attrs list"
  constrs :: "constr list"

type_synonym mvar = "var ndarray"

definition INFINITY :: real where
  "INFINITY = 10 ^ 100"

subsection \<open>Building expressions\<close>

definition var_expr :: "var \<Rightarrow> linexpr" where
  "var_expr v = LinExpr [(1, v)] 0"

definition const_expr :: "real \<Rightarrow> linexpr" where
  "const_expr c = LinExpr [] c"

fun scale_expr :: "real \<Rightarrow> linexpr \<Rightarrow> linexpr" where
  "scale_expr a (LinExpr ts c) = LinExpr (map (\<lambda>(b, v). (a * b, v)) ts) (a * c)"

fun add_expr :: "linexpr \<Rightarrow> linexpr \<Rightarrow> linexpr" where
  "add_expr (LinExpr ts c) (LinExpr us d) = LinExpr (ts @ us) (c + d)"

text \<open>\<^verbatim>\<open>vars.sum()\<close> over a list of variables\<close>

definition sum_expr :: "var list \<Rightarrow> linexpr" where
  "sum_expr vs = LinExpr (map (\<lambda>v. (1, v)) vs) 0"

text \<open>\<^verbatim>\<open>a.sum(axis=1)\<close>: one expression per row\<close>

definition sum_axis1 :: "mvar \<Rightarrow> linexpr list" where
  "sum_axis1 a = map (\<lambda>k. sum_expr (map (\<lambda>j. item a k j) [0..<shape1 a])) [0..<shape0 a]"

subsection \<open>Solutions\<close>

fun expr_value :: "(var \<Rightarrow> real) \<Rightarrow> linexpr \<Rightarrow> real" where
  "expr_value x (LinExpr ts c) = sum_list (map (\<lambda>(a, v). a * x v) ts) + c"

fun holds_temp :: "(var \<Rightarrow> real) \<Rightarrow> tempconstr \<Rightarrow> bool" where
  "holds_temp x (TempConstr l LESS_EQUAL r) = (expr_value x l \<le> expr_value x r)"
| "holds_temp x (TempConstr l GREATER_EQUAL r) = (expr_value x l \<ge> expr_value x r)"
| "holds_temp x (TempConstr l EQUAL r) = (expr_value x l = expr_value x r)"

fun holds :: "(var \<Rightarrow> real) \<Rightarrow> constr \<Rightarrow> bool" where
  "holds x (Linear c) = holds_temp x c"
| "holds x (Indicator v b c) = (x v = (if b then 1 else 0) \<longrightarrow> holds_temp x c)"

text \<open>
  A value is admissible for a variable when it respects the bounds (a bound of magnitude
  \<open>10\<^sup>2\<^sup>0\<close> or more counts as infinite) and, for a binary variable, is 0 or 1.
\<close>

definition admissible :: "var_attrs \<Rightarrow> real \<Rightarrow> bool" where
  "admissible a r =
     ((LB a \<le> - (10 ^ 20) \<or> LB a \<le> r) \<and> (10 ^ 20 \<le> UB a \<or> r \<le> UB a) \<and>
      (VType a = BINARY \<longrightarrow> r = 0 \<or> r = 1))"

definition feasible :: "model \<Rightarrow> (var \<Rightarrow> real) \<Rightarrow> bool" where
  "feasible m x =
     (list_all (\<lambda>v. admissible (vars m ! v) (x v)) [0..<length (vars m)] \<and>
      list_all (holds x) (constrs m))"

subsection \<open>Operations that change the model\<close>

text \<open>
  An operation takes the model and returns the changed model with either a result or the
  exception that stopped it; what was added before the exception stays in the model.
\<close>

type_synonym 'a gp = "model \<Rightarrow> (error + 'a) \<times> model"

definition return :: "'a \<Rightarrow> 'a gp" where
  "return a m = (Inr a, m)"

definition raise :: "error \<Rightarrow> 'a gp" where
  "raise e m = (Inl e, m)"

definition bind :: "'a gp \<Rightarrow> ('a \<Rightarrow> 'b gp) \<Rightarrow> 'b gp" where
  "bind f g m = (case f m of (Inl e, m') \<Rightarrow> (Inl e, m') | (Inr a, m') \<Rightarrow> g a m')"

definition lift :: "error + 'a \<Rightarrow> 'a gp" where
  "lift x = (case x of Inl e \<Rightarrow> raise e | Inr a \<Rightarrow> return a)"

primrec for_each :: "'a list \<Rightarrow> ('a \<Rightarrow> unit gp) \<Rightarrow> unit gp" where
  "for_each [] body = return ()"
| "for_each (x # xs) body = bind (body x) (\<lambda>_. for_each xs body)"

text \<open>
  \<^verbatim>\<open>model.addMVar(shape, lb, ub, vtype)\<close>: the new variables take the next indices of
  the model, row by row.
\<close>

definition addMVar :: "nat \<times> nat \<Rightarrow> real \<Rightarrow> real \<Rightarrow> vtype \<Rightarrow> mvar gp" where
  "addMVar shape lb ub vt m =
     (let n0 = length (vars m); rows = fst shape; cols = snd shape
      in (Inr \<lparr>shape0 = rows, shape1 = cols, item = (\<lambda>k j. n0 + k * cols + j)\<rparr>,
          m\<lparr>vars := vars m @ replicate (rows * cols) \<lparr>VType = vt, LB = lb, UB = ub\<rparr>\<rparr>))"

text \<open>\<^verbatim>\<open>model.addConstr\<close> of one constraint, of a list and of an array of constraints\<close>

definition addConstr :: "constr \<Rightarrow> unit gp" where
  "addConstr c m = (Inr (), m\<lparr>constrs := constrs m @ [c]\<rparr>)"

definition addConstr_list :: "tempconstr list \<Rightarrow> unit gp" where
  "addConstr_list cs m = (Inr (), m\<lparr>constrs := constrs m @ map Linear cs\<rparr>)"

definition addConstr_array :: "tempconstr ndarray \<Rightarrow> unit gp" where
  "addConstr_array cs = addConstr_list (elements cs)"

text \<open>
  \<^verbatim>\<open>model.addConstrs(gen(k) for k in ks)\<close>: the generator is run one index at a time
  and each constraint is added as it comes, so an exception at some index leaves the
  constraints of the earlier ones in the model.
\<close>

definition addConstrs :: "'a list \<Rightarrow> ('a \<Rightarrow> error + constr) \<Rightarrow> unit gp" where
  "addConstrs ks gen = for_each ks (\<lambda>k. bind (lift (gen k)) addConstr)"

text \<open>\<^verbatim>\<open>vs.LB = r\<close> and \<^verbatim>\<open>vs.UB = r\<close> on an array of variables of the model\<close>

definition set_LB :: "mvar \<Rightarrow> real \<Rightarrow> unit gp" where
  "set_LB vs r m =
     (Inr (), m\<lparr>vars := map (\<lambda>v. if v \<in> set (elements vs) then (vars m ! v)\<lparr>LB := r\<rparr> else vars m ! v)
                              [0..<length (vars m)]\<rparr>)"

definition set_UB :: "mvar \<Rightarrow> real \<Rightarrow> unit gp" where
  "set_UB vs r m =
     (Inr (), m\<lparr>vars := map (\<lambda>v. if v \<in> set (elements vs) then (vars m ! v)\<lparr>UB := r\<rparr> else vars m ! v)
                              [0..<length (vars m)]\<rparr>)"

section \<open>The single-tree encoder\<close>

subsection \<open>Floating-point numbers\<close>

text \<open>
  A binary floating-point format: the number of significant bits and the largest
  exponent; the smallest exponent of a normal number is \<open>1 - emax\<close>.
\<close>

record format =
  precision :: nat
  emax :: int

definition binary16 :: format where
  "binary16 = \<lparr>precision = 11, emax = 15\<rparr>"

definition binary32 :: format where
  "binary32 = \<lparr>precision = 24, emax = 127\<rparr>"

definition binary64 :: format where
  "binary64 = \<lparr>precision = 53, emax = 1023\<rparr>"

text \<open>
  The exponent of the binade of a number: \<open>e\<close> with \<open>2\<^sup>e \<le> \<bar>x\<bar> < 2\<^sup>e\<^sup>+\<^sup>1\<close>, found by
  halving a number from 1 on and by doubling a positive number below 1.
\<close>

function exponent_up :: "real \<Rightarrow> int" where
  "exponent_up x = (if x < 2 then 0 else exponent_up (x / 2) + 1)"
  by pat_completeness auto
termination
proof (relation "measure (\<lambda>x. nat \<lfloor>x\<rfloor>)")
  fix x :: real
  assume "\<not> x < 2"
  then have "\<lfloor>x / 2\<rfloor> < \<lfloor>x\<rfloor>" by linarith
  moreover have "0 < \<lfloor>x\<rfloor>" using \<open>\<not> x < 2\<close> by linarith
  ultimately show "(x / 2, x) \<in> measure (\<lambda>x. nat \<lfloor>x\<rfloor>)" by simp
qed simp

function exponent_down :: "real \<Rightarrow> int" where
  "exponent_down x = (if x \<le> 0 \<or> 1 \<le> x then 0 else exponent_down (2 * x) - 1)"
  by pat_completeness auto
termination
proof (relation "measure (\<lambda>x. nat \<lceil>1 / x\<rceil>)")
  fix x :: real
  assume "\<not> (x \<le> 0 \<or> 1 \<le> x)"
  then have x: "0 < x" "x < 1" by simp_all
  then have "1 < 1 / x" by simp
  then have c: "2 \<le> \<lceil>1 / x\<rceil>" by linarith
  have "1 / (2 * x) = (1 / x) / 2" by simp
  also have "\<dots> \<le> of_int \<lceil>1 / x\<rceil> / 2" by (simp add: divide_right_mono)
  also have "\<dots> \<le> of_int (\<lceil>1 / x\<rceil> - 1)" using c by simp
  finally have "\<lceil>1 / (2 * x)\<rceil> \<le> \<lceil>1 / x\<rceil> - 1" by (simp only: ceiling_le_iff)
  with c have "nat \<lceil>1 / (2 * x)\<rceil> < nat \<lceil>1 / x\<rceil>" by linarith
  then show "(2 * x, x) \<in> measure (\<lambda>x. nat \<lceil>1 / x\<rceil>)" by simp
qed simp

declare exponent_up.simps [simp del] exponent_down.simps [simp del]

definition exponent :: "real \<Rightarrow> int" where
  "exponent x = (if \<bar>x\<bar> < 1 then exponent_down \<bar>x\<bar> else exponent_up \<bar>x\<bar>)"

text \<open>The nearest integer, a tie going to the even one.\<close>

definition round_even :: "real \<Rightarrow> int" where
  "round_even r =
     (let f = \<lfloor>r\<rfloor>; d = r - of_int f
      in if d < 1 / 2 then f else if 1 / 2 < d then f + 1 else if even f then f else f + 1)"

text \<open>
  Rounding to a format, to nearest with ties to even, as IEEE 754 conversions and
  operations round: the result is a multiple of the unit in the last place of the binade
  of \<open>x\<close>, and below the normal range of the unit of the smallest normal binade
  (subnormal numbers, down to zero).  This is the value the hardware gives as long as it
  is finite; a result of magnitude \<open>2\<^sup>e\<^sup>m\<^sup>a\<^sup>x\<^sup>+\<^sup>1\<close> or more is \<^verbatim>\<open>inf\<close> there, which is
  not a real: \<open>isfinite\<close> tells the two apart, and what is proved of an encoding below
  is proved for finite constants.
\<close>

definition round_to :: "format \<Rightarrow> real \<Rightarrow> real" where
  "round_to fmt x =
     (let e = max (exponent x) (1 - emax fmt);
          ulp = power_int 2 (e - int (precision fmt) + 1)
      in of_int (round_even (x / ulp)) * ulp)"

definition isfinite :: "format \<Rightarrow> real \<Rightarrow> bool" where
  "isfinite fmt x = (\<bar>round_to fmt x\<bar> < power_int 2 (emax fmt + 1))"

text \<open>
  The float types the keyword \<^verbatim>\<open>float_type\<close> is given: numpy's \<^verbatim>\<open>np.float16\<close>,
  \<^verbatim>\<open>np.float32\<close> (the default) and \<^verbatim>\<open>np.float64\<close>, and Python's \<^verbatim>\<open>float\<close>.
  Calling one on a number rounds the number to the format of the type.
\<close>

datatype float_type = np_float16 | np_float32 | np_float64 | py_float

fun format_of :: "float_type \<Rightarrow> format" where
  "format_of np_float16 = binary16"
| "format_of np_float32 = binary32"
| "format_of np_float64 = binary64"
| "format_of py_float = binary64"

definition convert :: "float_type \<Rightarrow> real \<Rightarrow> real" where
  "convert ft x = round_to (format_of ft) x"

text \<open>
  \<^verbatim>\<open>a / b\<close> for a Python integer \<open>a\<close> and a number \<open>b\<close> of the float type: a Python
  float divisor that is zero raises \<^verbatim>\<open>ZeroDivisionError\<close>.  A numpy scalar that is zero
  gives \<^verbatim>\<open>inf\<close> with a warning and no exception; the model has no infinite number and
  writes HOL's \<open>a / 0\<close> there, a value the encoder replaces in its next statement.
  The quotient is a double for every one of the float types.
\<close>

definition true_divide :: "float_type \<Rightarrow> real \<Rightarrow> real \<Rightarrow> error + real" where
  "true_divide ft a b =
     (if b = 0 \<and> ft = py_float then Inl ZeroDivisionError
      else Inr (round_to binary64 (a / b)))"

text \<open>
  \<^verbatim>\<open>a + b\<close> for a product \<open>a\<close> of the Python integer 1 with a number of the float type
  and a Python float \<open>b\<close>.  Under the promotion rules of NumPy 1, the releases of the
  time of the source, the product of a numpy float scalar with a Python integer is a
  double, as the product with a Python float is; the sum is then the sum of two doubles,
  rounded to a double once.
\<close>

definition float_add :: "real \<Rightarrow> real \<Rightarrow> real" where
  "float_add a b = round_to binary64 (a + b)"

subsection \<open>The encoder\<close>

text \<open>
  The keyword parameters of \<^verbatim>\<open>DecisionTreeRegressorConstr\<close>: \<^verbatim>\<open>eps\<close> and
  \<^verbatim>\<open>scale\<close> are Python floats, \<^verbatim>\<open>float_type\<close> is one of the float types above.
\<close>

record tree_params =
  eps :: real
  scale :: real
  float_type :: float_type

text \<open>\<^verbatim>\<open>nodes[:, arr[notleafs]]\<close>\<close>

definition nodes_at :: "mvar \<Rightarrow> int list \<Rightarrow> bool list \<Rightarrow> error + mvar" where
  "nodes_at nodes arr msk = bindE (np_mask arr msk) (columns_take nodes)"

definition ge_constr :: "var \<Rightarrow> var \<Rightarrow> tempconstr" where
  "ge_constr a b = TempConstr (var_expr a) GREATER_EQUAL (var_expr b)"

definition le_expr_constr :: "var \<Rightarrow> linexpr \<Rightarrow> tempconstr" where
  "le_expr_constr a e = TempConstr (var_expr a) LESS_EQUAL e"

definition add_vars :: "var \<Rightarrow> var \<Rightarrow> linexpr" where
  "add_vars a b = add_expr (var_expr a) (var_expr b)"

definition le_const_constr :: "real \<Rightarrow> linexpr \<Rightarrow> tempconstr" where
  "le_const_constr c e = TempConstr e LESS_EQUAL (const_expr c)"

definition eq_const_constr :: "real \<Rightarrow> linexpr \<Rightarrow> tempconstr" where
  "eq_const_constr c e = TempConstr e EQUAL (const_expr c)"

text \<open>
  The four bulk constraints on the intermediate nodes (lines 43 to 48), each over all
  examples and all nodes that are not leaves.
\<close>

definition intermediate_nodes :: "tree \<Rightarrow> mvar \<Rightarrow> unit gp" where
  "intermediate_nodes tree nodes =
     (let notleafs = map (\<lambda>c. c \<ge> 0) (children_left tree)
      in
        bind (lift (bindE (columns_mask nodes notleafs) (\<lambda>parents.
                    bindE (nodes_at nodes (children_left tree) notleafs) (\<lambda>lefts.
                    zip_arrays ge_constr parents lefts)))) (\<lambda>c1.
        bind (addConstr_array c1) (\<lambda>_.
        bind (lift (bindE (columns_mask nodes notleafs) (\<lambda>parents.
                    bindE (nodes_at nodes (children_right tree) notleafs) (\<lambda>rights.
                    zip_arrays ge_constr parents rights)))) (\<lambda>c2.
        bind (addConstr_array c2) (\<lambda>_.
        bind (lift (bindE (columns_mask nodes notleafs) (\<lambda>parents.
                    bindE (nodes_at nodes (children_right tree) notleafs) (\<lambda>rights.
                    bindE (nodes_at nodes (children_left tree) notleafs) (\<lambda>lefts.
                    bindE (zip_arrays add_vars rights lefts) (\<lambda>both.
                    zip_arrays le_expr_constr parents both)))))) (\<lambda>c3.
        bind (addConstr_array c3) (\<lambda>_.
        bind (lift (bindE (nodes_at nodes (children_right tree) notleafs) (\<lambda>rights.
                    bindE (nodes_at nodes (children_left tree) notleafs) (\<lambda>lefts.
                    bindE (zip_arrays add_vars rights lefts) (\<lambda>both.
                    Inr (map_array (le_const_constr 1) both)))))) (\<lambda>c4.
        addConstr_array c4))))))))"

text \<open>
  One round of the loop over the nodes (lines 52 to 67).  The threshold of every node,
  leaves included, is converted and divided into 1 (line 55) before the kind of the node
  is looked at; the scale computed from the quotient is replaced by 1 in the next
  statement, as in the source.  The product \<^verbatim>\<open>scale * threshold\<close> with the integer 1
  is the threshold itself; the sum with \<^verbatim>\<open>self.eps\<close> (line 63) is a floating-point sum.
\<close>

definition split_node :: "tree_params \<Rightarrow> tree \<Rightarrow> mvar \<Rightarrow> mvar \<Rightarrow> mvar \<Rightarrow> nat \<Rightarrow> nat \<Rightarrow> unit gp" where
  "split_node self tree input output nodes nex node =
     bind (lift (np_get (children_left tree) (int node))) (\<lambda>left.
     bind (lift (np_get (children_right tree) (int node))) (\<lambda>right.
     bind (lift (np_get (threshold tree) (int node))) (\<lambda>t.
       let threshold = convert (float_type self) t
       in
         bind (lift (true_divide (float_type self) 1 threshold)) (\<lambda>quotient.
         let scale = max \<bar>quotient\<bar> (scale self);
             scale = 1
         in
           if left \<ge> 0 then
             bind (addConstrs [0..<nex] (\<lambda>k.
                     bindE (get2 nodes (int k) left) (\<lambda>b.
                     bindE (np_get (feature tree) (int node)) (\<lambda>f.
                     bindE (get2 input (int k) f) (\<lambda>x.
                     Inr (Indicator b True
                            (TempConstr (scale_expr scale (var_expr x)) LESS_EQUAL
                               (const_expr (scale * threshold))))))))) (\<lambda>_.
             addConstrs [0..<nex] (\<lambda>k.
                     bindE (get2 nodes (int k) right) (\<lambda>b.
                     bindE (np_get (feature tree) (int node)) (\<lambda>f.
                     bindE (get2 input (int k) f) (\<lambda>x.
                     Inr (Indicator b True
                            (TempConstr (scale_expr scale (var_expr x)) GREATER_EQUAL
                               (const_expr (float_add (scale * threshold) (eps self))))))))))
           else
             addConstrs [0..<nex] (\<lambda>k.
                     bindE (get2 nodes (int k) (int node)) (\<lambda>b.
                     bindE (get2 output (int k) 0) (\<lambda>y.
                     bindE (np_get (tree_value tree) (int node)) (\<lambda>v.
                     Inr (Indicator b True (TempConstr (var_expr y) EQUAL (const_expr v)))))))))))"

text \<open>Exactly one leaf is attained (line 70).\<close>

definition attain_one_leaf :: "tree \<Rightarrow> mvar \<Rightarrow> unit gp" where
  "attain_one_leaf tree nodes =
     (let leafs = map (\<lambda>c. c < 0) (children_left tree)
      in bind (lift (columns_mask nodes leafs)) (\<lambda>leaf_nodes.
         addConstr_list (map (eq_const_constr 1) (sum_axis1 leaf_nodes))))"

text \<open>The bounds of the output (lines 72 and 73).\<close>

definition output_bounds :: "tree \<Rightarrow> mvar \<Rightarrow> unit gp" where
  "output_bounds tree output =
     bind (lift (np_min (tree_value tree))) (\<lambda>lo.
     bind (set_LB output lo) (\<lambda>_.
     bind (lift (np_max (tree_value tree))) (\<lambda>hi.
     set_UB output hi)))"

text \<open>
  \<^verbatim>\<open>DecisionTreeRegressorConstr._mip_model\<close>.  It returns the node variables, which
  the source keeps in \<^verbatim>\<open>self.nodevars\<close>.  The names given to variables are left out.
\<close>

definition DecisionTreeRegressorConstr_mip_model ::
    "tree_params \<Rightarrow> decision_tree_regressor \<Rightarrow> mvar \<Rightarrow> mvar \<Rightarrow> mvar gp" where
  "DecisionTreeRegressorConstr_mip_model self predictor input output =
     (let tree = dt_tree predictor;
          outdim = shape1 output
      in
        if int outdim \<noteq> dt_n_outputs predictor then raise (AssertionError [])
        else
          let nex = shape0 input
          in
            bind (addMVar (nex, capacity tree) 0 INFINITY BINARY) (\<lambda>nodes.
            bind (intermediate_nodes tree nodes) (\<lambda>_.
            bind (for_each [0..<capacity tree] (split_node self tree input output nodes nex)) (\<lambda>_.
            bind (attain_one_leaf tree nodes) (\<lambda>_.
            bind (output_bounds tree output) (\<lambda>_.
            return nodes))))))"

text \<open>
  Modelled from the spec: \<^verbatim>\<open>AbstractPredictorConstr.__init__\<close> of
  \<^verbatim>\<open>gurobi_ml.modeling\<close> is not among the sources.  The spec says that all variables
  and constraints are created eagerly during the construction of an encoder, from an input
  array (examples by features) and an output array (examples by 1): constructing runs the
  encoder's \<^verbatim>\<open>_mip_model\<close> on the two arrays it was given.
\<close>

definition AbstractPredictorConstr_init :: "(mvar \<Rightarrow> mvar \<Rightarrow> 'a gp) \<Rightarrow> mvar \<Rightarrow> mvar \<Rightarrow> 'a gp" where
  "AbstractPredictorConstr_init mip_model input_vars output_vars = mip_model input_vars output_vars"

text \<open>\<^verbatim>\<open>DecisionTreeRegressorConstr.__init__\<close> (lines 16 to 27)\<close>

definition DecisionTreeRegressorConstr ::
    "tree_params \<Rightarrow> decision_tree_regressor \<Rightarrow> mvar \<Rightarrow> mvar \<Rightarrow> mvar gp" where
  "DecisionTreeRegressorConstr self predictor input_vars output_vars =
     (if dt_n_outputs predictor \<noteq> 1
      then raise (NoModel (DecisionTree predictor)
                    (''Can only deal with 1-dimensional regression trees. Output dimension '' @
                     format_int (dt_n_outputs predictor)))
      else AbstractPredictorConstr_init (DecisionTreeRegressorConstr_mip_model self predictor)
             input_vars output_vars)"

text \<open>\<^verbatim>\<open>add_decision_tree_regressor_constr\<close> (line 175)\<close>

definition add_decision_tree_regressor_constr ::
    "tree_params \<Rightarrow> decision_tree_regressor \<Rightarrow> mvar \<Rightarrow> mvar \<Rightarrow> mvar gp" where
  "add_decision_tree_regressor_constr self decision_tree_regressor input_vars output_vars =
     DecisionTreeRegressorConstr self decision_tree_regressor input_vars output_vars"

section \<open>The ensemble encoders\<close>

text \<open>
  The ensembles of \<^verbatim>\<open>decisiontrees.py\<close> build their tree encoders with the default
  keyword parameters (line 16): \<^verbatim>\<open>eps=1e-6\<close>, the double nearest to \<open>10\<^sup>-\<^sup>6\<close>,
  \<^verbatim>\<open>scale=1.0\<close> and \<^verbatim>\<open>float_type=np.float32\<close>.
\<close>

definition default_params :: tree_params where
  "default_params = \<lparr>eps = round_to binary64 (1 / 10 ^ 6), scale = 1, float_type = np_float32\<rparr>"

text \<open>
  A loop that appends one result per round.
\<close>

primrec collect :: "'a list \<Rightarrow> ('a \<Rightarrow> 'b gp) \<Rightarrow> 'b list gp" where
  "collect [] body = return []"
| "collect (x # xs) body = bind (body x) (\<lambda>y. bind (collect xs body) (\<lambda>ys. return (y # ys)))"

text \<open>
  Modelled from the spec: the validation of the output variables in
  \<^verbatim>\<open>gurobi_ml.modeling\<close> is not among the sources.  An ensemble hands the slice
  \<^verbatim>\<open>treevars[:, i]\<close> to a tree encoder, which reads it as \<^verbatim>\<open>output[k, 0]\<close>; the
  spec gives the tree encoder an output vector of shape examples by 1, so the slice is
  taken as a column.
\<close>

definition as_column :: "var list \<Rightarrow> mvar" where
  "as_column vs = \<lparr>shape0 = length vs, shape1 = 1, item = (\<lambda>k j. vs ! k)\<rparr>"

text \<open>
  What an ensemble encoder has made: the auxiliary variables and the node variables of
  each tree encoder (\<^verbatim>\<open>self.estimators_\<close>).
\<close>

record ensemble_constr =
  treevars :: mvar
  estimators :: "mvar list"

text \<open>\<^verbatim>\<open>RandomForestRegressorConstr._mip_model\<close> (lines 127 to 148)\<close>

definition RandomForestRegressorConstr_mip_model ::
    "random_forest_regressor \<Rightarrow> mvar \<Rightarrow> mvar \<Rightarrow> ensemble_constr gp" where
  "RandomForestRegressorConstr_mip_model predictor input output =
     (let nex = shape0 input
      in
        bind (addMVar (nex, rf_n_estimators predictor) (- INFINITY) INFINITY CONTINUOUS) (\<lambda>treevars.
        bind (collect [0..<rf_n_estimators predictor] (\<lambda>i.
                bind (lift (np_get (rf_estimators predictor) (int i))) (\<lambda>tree.
                bind (lift (column treevars (int i))) (\<lambda>out.
                DecisionTreeRegressorConstr default_params tree input (as_column out)))))
             (\<lambda>estimators.
        bind (lift (bindE (column output 0) (\<lambda>out0.
                zip_lists (\<lambda>y s. TempConstr (scale_expr (real (rf_n_estimators predictor)) (var_expr y))
                                     EQUAL s)
                  out0 (sum_axis1 treevars)))) (\<lambda>cs.
        bind (addConstr_list cs) (\<lambda>_.
        return \<lparr>treevars = treevars, estimators = estimators\<rparr>)))))"

text \<open>\<^verbatim>\<open>RandomForestRegressorConstr.__init__\<close> (lines 116 to 125)\<close>

definition RandomForestRegressorConstr ::
    "random_forest_regressor \<Rightarrow> mvar \<Rightarrow> mvar \<Rightarrow> ensemble_constr gp" where
  "RandomForestRegressorConstr predictor input_vars output_vars =
     (if rf_n_outputs predictor \<noteq> 1
      then raise (NoModel (RandomForest predictor)
                    (''Can only deal with 1-dimensional regression trees. Output dimension '' @
                     format_int (rf_n_outputs predictor)))
      else AbstractPredictorConstr_init (RandomForestRegressorConstr_mip_model predictor)
             input_vars output_vars)"

text \<open>
  \<^verbatim>\<open>GradientBoostingRegressorConstr._mip_model\<close> of \<^verbatim>\<open>decisiontrees.py\<close>
  (lines 85 to 110)
\<close>

definition GradientBoostingRegressorConstr_mip_model ::
    "gradient_boosting_regressor \<Rightarrow> mvar \<Rightarrow> mvar \<Rightarrow> ensemble_constr gp" where
  "GradientBoostingRegressorConstr_mip_model predictor input output =
     (let nex = shape0 input;
          outdim = shape1 output
      in
        if outdim \<noteq> 1
        then raise (NoModel (GradientBoosting predictor)
                      (''Can only deal with 1-dimensional regression. Output dimension '' @
                       format_int (int outdim)))
        else
          bind (addMVar (nex, gb_n_estimators predictor) (- INFINITY) INFINITY CONTINUOUS) (\<lambda>treevars.
          let constant = gb_init_constant predictor
          in
            bind (collect [0..<gb_n_estimators predictor] (\<lambda>i.
                    bind (lift (np_get (gb_estimators predictor) (int i))) (\<lambda>tree.
                    bind (lift (np_get tree 0)) (\<lambda>tree0.
                    bind (lift (column treevars (int i))) (\<lambda>out.
                    DecisionTreeRegressorConstr default_params tree0 input (as_column out))))))
                 (\<lambda>estimators.
            bind (lift (bindE (column output 0) (\<lambda>out0.
                    bindE (np_get constant 0) (\<lambda>constant0.
                    bindE (np_get constant0 0) (\<lambda>constant00.
                    zip_lists (\<lambda>y s. TempConstr (var_expr y) EQUAL
                                         (add_expr (scale_expr (gb_learning_rate predictor) s)
                                            (const_expr constant00)))
                      out0 (sum_axis1 treevars)))))) (\<lambda>cs.
            bind (addConstr_list cs) (\<lambda>_.
            return \<lparr>treevars = treevars, estimators = estimators\<rparr>)))))"

text \<open>\<^verbatim>\<open>GradientBoostingRegressorConstr.__init__\<close> of \<^verbatim>\<open>decisiontrees.py\<close> (lines 79 to 83)\<close>

definition GradientBoostingRegressorConstr ::
    "gradient_boosting_regressor \<Rightarrow> mvar \<Rightarrow> mvar \<Rightarrow> ensemble_constr gp" where
  "GradientBoostingRegressorConstr predictor input_vars output_vars =
     AbstractPredictorConstr_init (GradientBoostingRegressorConstr_mip_model predictor)
       input_vars output_vars"

text \<open>
  \<^verbatim>\<open>GradientBoostingRegressorConstr._mip_model\<close> of
  \<^verbatim>\<open>gradient_boosting_regressor.py\<close> (lines 75 to 106).  Its auxiliary variables have
  shape (examples, stages, 1); they are kept as an array (examples, stages), the slice
  \<^verbatim>\<open>treevars[:, i, :]\<close> being the column \<open>i\<close> with shape (examples, 1) and
  \<^verbatim>\<open>treevars.sum(axis=1)\<close> an array of shape (examples, 1).  The keyword parameters
  are handed on to the tree encoders.

  Modelled from the spec: the module \<^verbatim>\<open>decision_tree_regressor\<close> this file imports
  \<^verbatim>\<open>add_decision_tree_regressor_constr\<close> from is not among the sources.  The spec
  describes the two source variants as drafts of the same design with one single-tree
  encoder, so the function of \<^verbatim>\<open>decisiontrees.py\<close> stands for it.
\<close>

definition sum_axis1_keep :: "mvar \<Rightarrow> linexpr ndarray" where
  "sum_axis1_keep a =
     \<lparr>shape0 = shape0 a, shape1 = 1, item = (\<lambda>k j. sum_expr (map (\<lambda>i. item a k i) [0..<shape1 a]))\<rparr>"

definition GradientBoostingRegressorConstr2_mip_model ::
    "tree_params \<Rightarrow> gradient_boosting_regressor \<Rightarrow> mvar \<Rightarrow> mvar \<Rightarrow> ensemble_constr gp" where
  "GradientBoostingRegressorConstr2_mip_model kwargs predictor input output =
     (let nex = shape0 input;
          outdim = shape1 output
      in
        if outdim \<noteq> 1
        then raise (AssertionError ''Output dimension of gradient boosting regressor should be 1'')
        else
          bind (addMVar (nex, gb_n_estimators predictor) (- INFINITY) INFINITY CONTINUOUS) (\<lambda>treevars.
          let constant = gb_init_constant predictor
          in
            bind (collect [0..<gb_n_estimators predictor] (\<lambda>i.
                    bind (lift (np_get (gb_estimators predictor) (int i))) (\<lambda>tree.
                    bind (lift (np_get tree 0)) (\<lambda>tree0.
                    bind (lift (column treevars (int i))) (\<lambda>out.
                    add_decision_tree_regressor_constr kwargs tree0 input (as_column out))))))
                 (\<lambda>estimators.
            bind (lift (bindE (np_get constant 0) (\<lambda>constant0.
                    bindE (np_get constant0 0) (\<lambda>constant00.
                    zip_arrays (\<lambda>y s. TempConstr (var_expr y) EQUAL
                                          (add_expr (scale_expr (gb_learning_rate predictor) s)
                                             (const_expr constant00)))
                      output (sum_axis1_keep treevars))))) (\<lambda>cs.
            bind (addConstr_array cs) (\<lambda>_.
            return \<lparr>treevars = treevars, estimators = estimators\<rparr>)))))"

text \<open>
  \<^verbatim>\<open>GradientBoostingRegressorConstr.__init__\<close> of
  \<^verbatim>\<open>gradient_boosting_regressor.py\<close> (lines 68 to 73)
\<close>

definition GradientBoostingRegressorConstr2 ::
    "tree_params \<Rightarrow> gradient_boosting_regressor \<Rightarrow> mvar \<Rightarrow> mvar \<Rightarrow> ensemble_constr gp" where
  "GradientBoostingRegressorConstr2 kwargs predictor input_vars output_vars =
     AbstractPredictorConstr_init (GradientBoostingRegressorConstr2_mip_model kwargs predictor)
       input_vars output_vars"

section \<open>Reference notions\<close>

subsection \<open>Well-formed trees\<close>

text \<open>
  What scikit-learn guarantees of the arrays of a fitted tree and the encoder relies on:
  all arrays have one entry per node, and a node that is not a leaf (its left child is not
  negative) has both children and its split feature in range.  The second argument is the
  number of input features.
\<close>

definition tree_ok :: "tree \<Rightarrow> nat \<Rightarrow> bool" where
  "tree_ok t nfeat =
     (0 < capacity t \<and>
      length (children_left t) = capacity t \<and> length (children_right t) = capacity t \<and>
      length (feature t) = capacity t \<and> length (threshold t) = capacity t \<and>
      length (tree_value t) = capacity t \<and>
      list_all (\<lambda>n. 0 \<le> children_left t ! n \<longrightarrow>
                  children_left t ! n < int (capacity t) \<and>
                  0 \<le> children_right t ! n \<and> children_right t ! n < int (capacity t) \<and>
                  0 \<le> feature t ! n \<and> feature t ! n < int nfeat)
        [0..<capacity t])"

text \<open>
  The nodes form a tree below node 0: children come after their parent, and every node
  but the root is a child of an earlier node.
\<close>

definition rooted :: "tree \<Rightarrow> bool" where
  "rooted t =
     list_all (\<lambda>n. (0 \<le> children_left t ! n \<longrightarrow>
                      int n < children_left t ! n \<and> int n < children_right t ! n) \<and>
                   (0 < n \<longrightarrow>
                      list_ex (\<lambda>p. 0 \<le> children_left t ! p \<and>
                                    (children_left t ! p = int n \<or> children_right t ! p = int n))
                        [0..<n]))
       [0..<capacity t]"

definition inner_nodes :: "tree \<Rightarrow> nat list" where
  "inner_nodes t = filter (\<lambda>n. 0 \<le> children_left t ! n) [0..<capacity t]"

definition leaf_nodes :: "tree \<Rightarrow> nat list" where
  "leaf_nodes t = filter (\<lambda>n. children_left t ! n < 0) [0..<capacity t]"

definition left_child :: "tree \<Rightarrow> nat \<Rightarrow> nat" where
  "left_child t n = nat (children_left t ! n)"

definition right_child :: "tree \<Rightarrow> nat \<Rightarrow> nat" where
  "right_child t n = nat (children_right t ! n)"

subsection \<open>Direct evaluation of a tree\<close>

text \<open>
  Modelled from the spec: the evaluation of a tree on given feature values is
  scikit-learn's, not among the sources.  The spec calls it following the tree's splits:
  at a node that is not a leaf, take the left branch when the value of the split feature is
  at most the threshold and the right branch otherwise; the prediction is the value of the
  leaf reached.  The first argument bounds the number of steps; a path in a rooted tree
  has at most \<open>capacity\<close> nodes.
\<close>

fun descend :: "nat \<Rightarrow> tree \<Rightarrow> (nat \<Rightarrow> real) \<Rightarrow> nat \<Rightarrow> nat option" where
  "descend 0 t x n = None"
| "descend (Suc fuel) t x n =
     (if children_left t ! n < 0 then Some n
      else if x (nat (feature t ! n)) \<le> threshold t ! n
        then descend fuel t x (nat (children_left t ! n))
        else descend fuel t x (nat (children_right t ! n)))"

definition predict :: "tree \<Rightarrow> (nat \<Rightarrow> real) \<Rightarrow> real option" where
  "predict t x = map_option (\<lambda>n. tree_value t ! n) (descend (capacity t) t x 0)"

text \<open>The tree with every threshold converted to a float type.\<close>

definition with_float_type :: "float_type \<Rightarrow> tree \<Rightarrow> tree" where
  "with_float_type ft t = t\<lparr>threshold := map (convert ft) (threshold t)\<rparr>"

subsection \<open>Trees the encoder gets through\<close>

text \<open>
  The loop over the nodes runs to its end on a tree and the constants it hands to the
  solver are finite: with Python's \<^verbatim>\<open>float\<close> as float type no node, leaf or not, has
  the threshold zero (line 55 divides by it), and at every node that is not a leaf the
  converted threshold and its sum with \<^verbatim>\<open>eps\<close> are finite numbers.
\<close>

definition encodable :: "tree_params \<Rightarrow> tree \<Rightarrow> bool" where
  "encodable self t =
     list_all (\<lambda>n. (float_type self = py_float \<longrightarrow> convert (float_type self) (threshold t ! n) \<noteq> 0) \<and>
                   (0 \<le> children_left t ! n \<longrightarrow>
                      isfinite (format_of (float_type self)) (threshold t ! n) \<and>
                      isfinite binary64 (convert (float_type self) (threshold t ! n) + eps self)))
       [0..<capacity t]"

text \<open>
  The margin \<^verbatim>\<open>eps\<close> survives the floating-point sum at every split: the constant of
  the right branch is above the converted threshold.
\<close>

definition margin_kept :: "tree_params \<Rightarrow> tree \<Rightarrow> bool" where
  "margin_kept self t =
     list_all (\<lambda>n. 0 \<le> children_left t ! n \<longrightarrow>
                   convert (float_type self) (threshold t ! n) <
                   float_add (convert (float_type self) (threshold t ! n)) (eps self))
       [0..<capacity t]"

subsection \<open>What the single-tree encoder adds\<close>

text \<open>
  The constraints of a well-formed tree, written out: the four families on the
  intermediate nodes, the indicator constraints of each node, and one sum over the leaves
  per example.
\<close>

definition bulk_constrs :: "tree \<Rightarrow> mvar \<Rightarrow> constr list" where
  "bulk_constrs t nodes =
     map Linear
       (concat (map (\<lambda>k. map (\<lambda>n. ge_constr (item nodes k n) (item nodes k (left_child t n))) (inner_nodes t))
                  [0..<shape0 nodes]) @
        concat (map (\<lambda>k. map (\<lambda>n. ge_constr (item nodes k n) (item nodes k (right_child t n))) (inner_nodes t))
                  [0..<shape0 nodes]) @
        concat (map (\<lambda>k. map (\<lambda>n. le_expr_constr (item nodes k n)
                                     (add_vars (item nodes k (right_child t n)) (item nodes k (left_child t n))))
                            (inner_nodes t))
                  [0..<shape0 nodes]) @
        concat (map (\<lambda>k. map (\<lambda>n. le_const_constr 1
                                     (add_vars (item nodes k (right_child t n)) (item nodes k (left_child t n))))
                            (inner_nodes t))
                  [0..<shape0 nodes]))"

definition node_constrs :: "tree_params \<Rightarrow> tree \<Rightarrow> mvar \<Rightarrow> mvar \<Rightarrow> mvar \<Rightarrow> nat \<Rightarrow> constr list" where
  "node_constrs self t input output nodes n =
     (if 0 \<le> children_left t ! n then
        map (\<lambda>k. Indicator (item nodes k (left_child t n)) True
                    (TempConstr (var_expr (item input k (nat (feature t ! n)))) LESS_EQUAL
                       (const_expr (convert (float_type self) (threshold t ! n)))))
          [0..<shape0 nodes] @
        map (\<lambda>k. Indicator (item nodes k (right_child t n)) True
                    (TempConstr (var_expr (item input k (nat (feature t ! n)))) GREATER_EQUAL
                       (const_expr (float_add (convert (float_type self) (threshold t ! n)) (eps self)))))
          [0..<shape0 nodes]
      else
        map (\<lambda>k. Indicator (item nodes k n) True
                    (TempConstr (var_expr (item output k 0)) EQUAL (const_expr (tree_value t ! n))))
          [0..<shape0 nodes])"

definition leaf_constrs :: "tree \<Rightarrow> mvar \<Rightarrow> constr list" where
  "leaf_constrs t nodes =
     map (\<lambda>k. Linear (eq_const_constr 1 (sum_expr (map (item nodes k) (leaf_nodes t)))))
       [0..<shape0 nodes]"

definition tree_constrs :: "tree_params \<Rightarrow> tree \<Rightarrow> mvar \<Rightarrow> mvar \<Rightarrow> mvar \<Rightarrow> constr list" where
  "tree_constrs self t input output nodes =
     bulk_constrs t nodes @
     concat (map (node_constrs self t input output nodes) [0..<capacity t]) @
     leaf_constrs t nodes"

definition with_bounds :: "var_attrs list \<Rightarrow> mvar \<Rightarrow> real \<Rightarrow> real \<Rightarrow> var_attrs list" where
  "with_bounds vs output lo hi =
     map (\<lambda>v. if v \<in> set (elements output) then (vs ! v)\<lparr>LB := lo, UB := hi\<rparr> else vs ! v)
       [0..<length vs]"

text \<open>The array \<^verbatim>\<open>addMVar\<close> returns for the given shape on the model \<open>m\<close>.\<close>

definition new_mvar :: "model \<Rightarrow> nat \<Rightarrow> nat \<Rightarrow> mvar" where
  "new_mvar m rows cols = \<lparr>shape0 = rows, shape1 = cols, item = (\<lambda>k j. length (vars m) + k * cols + j)\<rparr>"

text \<open>
  A later model extends an earlier one: it keeps the variables with their types and the
  constraints.
\<close>

definition extends :: "model \<Rightarrow> model \<Rightarrow> bool" where
  "extends m m' =
     (length (vars m) \<le> length (vars m') \<and>
      (\<forall>v < length (vars m). VType (vars m' ! v) = VType (vars m ! v)) \<and>
      set (constrs m) \<subseteq> set (constrs m'))"

text \<open>
  A model holds the encoding of a tree on the node variables \<open>nodes\<close>: the node variables
  are binary variables of the model and the constraints of the tree are among its
  constraints.
\<close>

definition tree_encoded ::
    "tree_params \<Rightarrow> tree \<Rightarrow> mvar \<Rightarrow> mvar \<Rightarrow> mvar \<Rightarrow> model \<Rightarrow> bool" where
  "tree_encoded self t input output nodes m =
     (shape0 nodes = shape0 input \<and> shape1 nodes = capacity t \<and>
      (\<forall>k < shape0 nodes. \<forall>n < capacity t.
         item nodes k n < length (vars m) \<and> VType (vars m ! item nodes k n) = BINARY) \<and>
      set (tree_constrs self t input output nodes) \<subseteq> set (constrs m))"

text \<open>Column \<open>i\<close> of the auxiliary variables, as the output array of tree encoder \<open>i\<close>.\<close>

definition slice :: "mvar \<Rightarrow> nat \<Rightarrow> mvar" where
  "slice tv i = as_column (map (\<lambda>k. item tv k i) [0..<shape0 tv])"

subsection \<open>The values of an example's inputs in a solution\<close>

definition input_values :: "(var \<Rightarrow> real) \<Rightarrow> mvar \<Rightarrow> nat \<Rightarrow> nat \<Rightarrow> real" where
  "input_values x input k f = x (item input k f)"

section \<open>Sample inputs\<close>

text \<open>
  A tree with one split, on feature 0, and two leaves.  The threshold
  \<open>1000 + 2\<^sup>-\<^sup>1\<^sup>6\<close> is a double precision number that is not a single precision
  number: single precision numbers are \<open>2\<^sup>-\<^sup>1\<^sup>4\<close> apart there.
\<close>

definition sample_tree :: tree where
  "sample_tree =
     \<lparr>capacity = 3, children_left = [1, - 1, - 1], children_right = [2, - 1, - 1],
      feature = [0, - 2, - 2], threshold = [1000 + 1 / 65536, - 2, - 2],
      tree_value = [15, 10, 20]\<rparr>"

definition sample_regressor :: decision_tree_regressor where
  "sample_regressor = \<lparr>dt_n_outputs = 1, dt_tree = sample_tree\<rparr>"

text \<open>A model with two free continuous variables: variable 0 is the input, variable 1 the output.\<close>

definition sample_model :: model where
  "sample_model =
     \<lparr>vars = replicate 2 \<lparr>VType = CONTINUOUS, LB = - INFINITY, UB = INFINITY\<rparr>, constrs = []\<rparr>"

definition sample_input :: mvar where
  "sample_input = \<lparr>shape0 = 1, shape1 = 1, item = (\<lambda>k j. 0)\<rparr>"

definition sample_output :: mvar where
  "sample_output = \<lparr>shape0 = 1, shape1 = 1, item = (\<lambda>k j. 1)\<rparr>"

text \<open>A solution given by the values of the first variables; the others are 0.\<close>

definition solution :: "real list \<Rightarrow> var \<Rightarrow> real" where
  "solution vals v = (if v < length vals then vals ! v else 0)"

text \<open>
  A tree as the stages of a gradient boosting regressor fit with the absolute error loss
  have them: scikit-learn replaces the values of the leaves by medians of residuals and
  keeps the value of an internal node as it was fit, here \<open>1/5\<close> at the root.
\<close>

definition stage_tree :: tree where
  "stage_tree =
     \<lparr>capacity = 3, children_left = [1, - 1, - 1], children_right = [2, - 1, - 1],
      feature = [0, - 2, - 2], threshold = [1 / 2, - 2, - 2],
      tree_value = [1 / 5, 10, 20]\<rparr>"

definition stage_regressor :: decision_tree_regressor where
  "stage_regressor = \<lparr>dt_n_outputs = 1, dt_tree = stage_tree\<rparr>"

text \<open>The sample tree with other values at its nodes.\<close>

definition second_tree :: tree where
  "second_tree = sample_tree\<lparr>tree_value := [35, 30, 40]\<rparr>"

definition second_regressor :: decision_tree_regressor where
  "second_regressor = \<lparr>dt_n_outputs = 1, dt_tree = second_tree\<rparr>"

text \<open>A forest of the two sample trees.\<close>

definition sample_forest :: random_forest_regressor where
  "sample_forest =
     \<lparr>rf_n_outputs = 1, rf_n_estimators = 2, rf_estimators = [sample_regressor, second_regressor]\<rparr>"

text \<open>
  A boosting ensemble of the two sample trees, with learning rate \<open>1/10\<close> and initial
  constant 3.
\<close>

definition sample_boosting :: gradient_boosting_regressor where
  "sample_boosting =
     \<lparr>gb_n_estimators = 2, gb_estimators = [[sample_regressor], [second_regressor]],
      gb_learning_rate = 1 / 10, gb_init_constant = [[3]]\<rparr>"

text \<open>
  A tree that splits at \<open>2\<^sup>3\<^sup>4\<close>, which is a single precision number.  Double precision
  numbers are \<open>2\<^sup>-\<^sup>1\<^sup>8\<close> apart there, more than twice the default \<^verbatim>\<open>eps\<close>.
\<close>

definition wide_tree :: tree where
  "wide_tree =
     \<lparr>capacity = 3, children_left = [1, - 1, - 1], children_right = [2, - 1, - 1],
      feature = [0, - 2, - 2], threshold = [17179869184, - 2, - 2],
      tree_value = [15, 10, 20]\<rparr>"

definition wide_regressor :: decision_tree_regressor where
  "wide_regressor = \<lparr>dt_n_outputs = 1, dt_tree = wide_tree\<rparr>"

text \<open>A tree that splits at 0, and the default parameters with Python's \<^verbatim>\<open>float\<close>.\<close>

definition zero_tree :: tree where
  "zero_tree =
     \<lparr>capacity = 3, children_left = [1, - 1, - 1], children_right = [2, - 1, - 1],
      feature = [0, - 2, - 2], threshold = [0, - 2, - 2],
      tree_value = [15, 10, 20]\<rparr>"

definition zero_regressor :: decision_tree_regressor where
  "zero_regressor = \<lparr>dt_n_outputs = 1, dt_tree = zero_tree\<rparr>"

definition float_params :: tree_params where
  "float_params = default_params\<lparr>float_type := py_float\<rparr>"

section \<open>Properties of the building blocks\<close>

lemma bindE_Inr [simp]: "bindE (Inr a) f = f a"
  by (simp add: bindE_def)

lemma bindE_Inl [simp]: "bindE (Inl e) f = Inl e"
  by (simp add: bindE_def)

lemma lift_Inr [simp]: "lift (Inr a) = return a"
  by (simp add: lift_def)

lemma lift_Inl [simp]: "lift (Inl e) = raise e"
  by (simp add: lift_def)

lemma bind_return [simp]: "bind (return a) g = g a"
  by (rule ext) (simp add: bind_def return_def)

lemma bind_raise [simp]: "bind (raise e) g = raise e"
  by (rule ext) (simp add: bind_def raise_def)

lemma bind_Inr: "f m = (Inr a, m') \<Longrightarrow> bind f g m = g a m'"
  by (simp add: bind_def)

lemma bind_Inl: "f m = (Inl e, m') \<Longrightarrow> bind f g m = (Inl e, m')"
  by (simp add: bind_def)

lemma np_index_range: "0 \<le> i \<Longrightarrow> i < int n \<Longrightarrow> np_index n i = Inr (nat i)"
  by (simp add: np_index_def)

lemma np_index_nat [simp]: "k < n \<Longrightarrow> np_index n (int k) = Inr k"
  by (simp add: np_index_def)

lemma np_get_nat: "k < length xs \<Longrightarrow> np_get xs (int k) = Inr (xs ! k)"
  by (simp add: np_get_def)

lemma np_get_range: "0 \<le> i \<Longrightarrow> i < int (length xs) \<Longrightarrow> np_get xs i = Inr (xs ! nat i)"
  by (simp add: np_get_def np_index_range)

lemma mapE_np_index:
  "\<forall>i\<in>set idx. 0 \<le> i \<and> i < int n \<Longrightarrow> mapE (np_index n) idx = Inr (map nat idx)"
  by (induction idx) (simp_all add: np_index_range)

lemma get2_range:
  "k < shape0 a \<Longrightarrow> 0 \<le> j \<Longrightarrow> j < int (shape1 a) \<Longrightarrow> get2 a (int k) j = Inr (item a k (nat j))"
  by (simp add: get2_def np_index_range)

lemma for_each_append:
  assumes "\<And>x m. x \<in> set xs \<Longrightarrow> body x m = (Inr (), m\<lparr>constrs := constrs m @ f x\<rparr>)"
  shows "for_each xs body m = (Inr (), m\<lparr>constrs := constrs m @ concat (map f xs)\<rparr>)"
  using assms
proof (induction xs arbitrary: m)
  case Nil
  then show ?case by (simp add: return_def)
next
  case (Cons x xs)
  have "body x m = (Inr (), m\<lparr>constrs := constrs m @ f x\<rparr>)"
    using Cons.prems by simp
  then have "for_each (x # xs) body m = for_each xs body (m\<lparr>constrs := constrs m @ f x\<rparr>)"
    by (simp add: bind_Inr)
  also have "\<dots> = (Inr (), (m\<lparr>constrs := constrs m @ f x\<rparr>)\<lparr>constrs := constrs (m\<lparr>constrs := constrs m @ f x\<rparr>) @ concat (map f xs)\<rparr>)"
    using Cons.prems by (intro Cons.IH) simp
  finally show ?case by simp
qed

lemma addConstrs_ok:
  assumes "\<And>k. k \<in> set ks \<Longrightarrow> gen k = Inr (g k)"
  shows "addConstrs ks gen m = (Inr (), m\<lparr>constrs := constrs m @ map g ks\<rparr>)"
proof -
  have "for_each ks (\<lambda>k. bind (lift (gen k)) addConstr) m
      = (Inr (), m\<lparr>constrs := constrs m @ concat (map (\<lambda>k. [g k]) ks)\<rparr>)"
    by (rule for_each_append) (simp add: assms addConstr_def)
  moreover have "concat (map (\<lambda>k. [g k]) ks) = map g ks"
    by (induction ks) simp_all
  ultimately show ?thesis by (simp add: addConstrs_def)
qed

lemma mask_positions_map:
  "mask_positions (map P xs) = filter (\<lambda>j. P (xs ! j)) [0..<length xs]"
  unfolding mask_positions_def by (rule filter_cong) simp_all

lemma map_positions: "map (\<lambda>j. g (P ! j)) [0..<length P] = map g P"
  by (rule nth_equalityI) simp_all

lemma elements_positions:
  assumes "\<And>k j. k < r \<Longrightarrow> j < length P \<Longrightarrow> F k j = G k (P ! j)"
  shows "elements \<lparr>shape0 = r, shape1 = length P, item = F\<rparr> = concat (map (\<lambda>k. map (G k) P) [0..<r])"
proof -
  have "map (\<lambda>j. F k j) [0..<length P] = map (G k) P" if "k < r" for k
  proof -
    show ?thesis
      by (rule nth_equalityI) (use assms that in simp_all)
  qed
  then have eq: "map (\<lambda>k. map (\<lambda>j. F k j) [0..<length P]) [0..<r] = map (\<lambda>k. map (G k) P) [0..<r]"
    by (intro map_cong) simp_all
  have "elements \<lparr>shape0 = r, shape1 = length P, item = F\<rparr> =
          concat (map (\<lambda>k. map (\<lambda>j. F k j) [0..<length P]) [0..<r])"
    by (simp add: elements_def)
  also have "\<dots> = concat (map (\<lambda>k. map (G k) P) [0..<r])"
    by (simp only: eq)
  finally show ?thesis .
qed

lemma tree_ok_inner:
  assumes "tree_ok t nfeat" "n \<in> set (inner_nodes t)"
  shows "n < capacity t" "0 \<le> children_left t ! n" "children_left t ! n < int (capacity t)"
    "0 \<le> children_right t ! n" "children_right t ! n < int (capacity t)"
    "0 \<le> feature t ! n" "feature t ! n < int nfeat"
  using assms by (auto simp: tree_ok_def inner_nodes_def list_all_iff)

lemma columns_mask_inner:
  assumes "length (children_left t) = capacity t" "shape1 nodes = capacity t"
  shows "columns_mask nodes (map (\<lambda>c. 0 \<le> c) (children_left t)) =
           Inr \<lparr>shape0 = shape0 nodes, shape1 = length (inner_nodes t),
                item = (\<lambda>k j. item nodes k (inner_nodes t ! j))\<rparr>"
  using assms by (simp add: columns_mask_def mask_positions_map inner_nodes_def)

lemma columns_mask_leaf:
  assumes "length (children_left t) = capacity t" "shape1 nodes = capacity t"
  shows "columns_mask nodes (map (\<lambda>c. c < 0) (children_left t)) =
           Inr \<lparr>shape0 = shape0 nodes, shape1 = length (leaf_nodes t),
                item = (\<lambda>k j. item nodes k (leaf_nodes t ! j))\<rparr>"
  using assms by (simp add: columns_mask_def mask_positions_map leaf_nodes_def)

lemma nodes_at_left:
  assumes "tree_ok t nfeat" "shape1 nodes = capacity t"
  shows "nodes_at nodes (children_left t) (map (\<lambda>c. 0 \<le> c) (children_left t)) =
           Inr \<lparr>shape0 = shape0 nodes, shape1 = length (inner_nodes t),
                item = (\<lambda>k j. item nodes k (map (left_child t) (inner_nodes t) ! j))\<rparr>"
proof -
  have len: "length (children_left t) = capacity t"
    using assms by (simp add: tree_ok_def)
  have "mapE (np_index (capacity t)) (map (\<lambda>j. children_left t ! j) (inner_nodes t)) =
          Inr (map nat (map (\<lambda>j. children_left t ! j) (inner_nodes t)))"
    by (rule mapE_np_index) (use assms tree_ok_inner in auto)
  then show ?thesis
    using assms len
    by (simp add: nodes_at_def np_mask_def columns_take_def mask_positions_map inner_nodes_def
        left_child_def [abs_def] comp_def)
qed

lemma nodes_at_right:
  assumes "tree_ok t nfeat" "shape1 nodes = capacity t"
  shows "nodes_at nodes (children_right t) (map (\<lambda>c. 0 \<le> c) (children_left t)) =
           Inr \<lparr>shape0 = shape0 nodes, shape1 = length (inner_nodes t),
                item = (\<lambda>k j. item nodes k (map (right_child t) (inner_nodes t) ! j))\<rparr>"
proof -
  have len: "length (children_left t) = capacity t" "length (children_right t) = capacity t"
    using assms by (simp_all add: tree_ok_def)
  have "mapE (np_index (capacity t)) (map (\<lambda>j. children_right t ! j) (inner_nodes t)) =
          Inr (map nat (map (\<lambda>j. children_right t ! j) (inner_nodes t)))"
    by (rule mapE_np_index) (use assms tree_ok_inner in auto)
  then show ?thesis
    using assms len
    by (simp add: nodes_at_def np_mask_def columns_take_def mask_positions_map inner_nodes_def
        right_child_def [abs_def] comp_def)
qed

lemma intermediate_nodes_ok:
  assumes ok: "tree_ok t nfeat" and sh: "shape1 nodes = capacity t"
  shows "intermediate_nodes t nodes m = (Inr (), m\<lparr>constrs := constrs m @ bulk_constrs t nodes\<rparr>)"
proof -
  have len: "length (children_left t) = capacity t"
    using ok by (simp add: tree_ok_def)
  note cm = columns_mask_inner [OF len sh]
  note nl = nodes_at_left [OF ok sh]
  note nr = nodes_at_right [OF ok sh]
  show ?thesis
    unfolding intermediate_nodes_def Let_def
    by (simp add: cm nl nr zip_arrays_def map_array_def addConstr_array_def addConstr_list_def
        bind_def return_def bulk_constrs_def elements_positions [where G = "\<lambda>k n. ge_constr (item nodes k n) (item nodes k (left_child t n))"]
        elements_positions [where G = "\<lambda>k n. ge_constr (item nodes k n) (item nodes k (right_child t n))"]
        elements_positions [where G = "\<lambda>k n. le_expr_constr (item nodes k n)
                                     (add_vars (item nodes k (right_child t n)) (item nodes k (left_child t n)))"]
        elements_positions [where G = "\<lambda>k n. le_const_constr 1
                                     (add_vars (item nodes k (right_child t n)) (item nodes k (left_child t n)))"])
qed

lemma scale_expr_one [simp]: "scale_expr 1 e = e"
  by (cases e) (simp add: case_prod_unfold)

lemma split_node_ok:
  assumes ok: "tree_ok t (shape1 input)"
    and sh: "shape1 nodes = capacity t" "shape0 nodes = nex" "shape0 input = nex"
      "nex \<le> shape0 output" "shape1 output = 1"
    and n: "n < capacity t"
    and nz: "float_type self = py_float \<longrightarrow> convert (float_type self) (threshold t ! n) \<noteq> 0"
  shows "split_node self t input output nodes nex n m =
           (Inr (), m\<lparr>constrs := constrs m @ node_constrs self t input output nodes n\<rparr>)"
proof -
  have len: "length (children_left t) = capacity t" "length (children_right t) = capacity t"
    "length (feature t) = capacity t" "length (threshold t) = capacity t"
    "length (tree_value t) = capacity t"
    using ok by (simp_all add: tree_ok_def)
  have e: "np_get (children_left t) (int n) = Inr (children_left t ! n)"
    "np_get (children_right t) (int n) = Inr (children_right t ! n)"
    "np_get (threshold t) (int n) = Inr (threshold t ! n)"
    using n len by (simp_all add: np_get_nat)
  have q: "true_divide (float_type self) 1 (convert (float_type self) (threshold t ! n)) =
      Inr (round_to binary64 (1 / convert (float_type self) (threshold t ! n)))"
    using nz by (auto simp: true_divide_def)
  show ?thesis
  proof (cases "0 \<le> children_left t ! n")
    case True
    then have inner: "n \<in> set (inner_nodes t)"
      using n by (simp add: inner_nodes_def)
    note r = tree_ok_inner [OF ok inner]
    have g1: "\<And>k. k \<in> set [0..<nex] \<Longrightarrow>
        bindE (get2 nodes (int k) (children_left t ! n)) (\<lambda>b.
        bindE (np_get (feature t) (int n)) (\<lambda>f.
        bindE (get2 input (int k) f) (\<lambda>x.
          Inr (Indicator b True (TempConstr (var_expr x) LESS_EQUAL
                 (const_expr (convert (float_type self) (threshold t ! n)))))))) =
        Inr (Indicator (item nodes k (left_child t n)) True
               (TempConstr (var_expr (item input k (nat (feature t ! n)))) LESS_EQUAL
                  (const_expr (convert (float_type self) (threshold t ! n)))))"
      using r sh n len by (simp add: get2_range left_child_def np_get_nat)
    have g2: "\<And>k. k \<in> set [0..<nex] \<Longrightarrow>
        bindE (get2 nodes (int k) (children_right t ! n)) (\<lambda>b.
        bindE (np_get (feature t) (int n)) (\<lambda>f.
        bindE (get2 input (int k) f) (\<lambda>x.
          Inr (Indicator b True (TempConstr (var_expr x) GREATER_EQUAL
                 (const_expr (float_add (convert (float_type self) (threshold t ! n)) (eps self)))))))) =
        Inr (Indicator (item nodes k (right_child t n)) True
               (TempConstr (var_expr (item input k (nat (feature t ! n)))) GREATER_EQUAL
                  (const_expr (float_add (convert (float_type self) (threshold t ! n)) (eps self)))))"
      using r sh n len by (simp add: get2_range right_child_def np_get_nat)
    note a1 = addConstrs_ok [OF g1]
    note a2 = addConstrs_ok [OF g2]
    have b1: "bind (addConstrs [0..<nex] (\<lambda>k.
        bindE (get2 nodes (int k) (children_left t ! n)) (\<lambda>b.
        bindE (np_get (feature t) (int n)) (\<lambda>f.
        bindE (get2 input (int k) f) (\<lambda>x.
          Inr (Indicator b True (TempConstr (var_expr x) LESS_EQUAL
                 (const_expr (convert (float_type self) (threshold t ! n)))))))))) g m' =
       g () (m'\<lparr>constrs := constrs m' @ map (\<lambda>k. Indicator (item nodes k (left_child t n)) True
               (TempConstr (var_expr (item input k (nat (feature t ! n)))) LESS_EQUAL
                  (const_expr (convert (float_type self) (threshold t ! n))))) [0..<nex]\<rparr>)" for g :: "unit \<Rightarrow> unit gp" and m'
      by (simp only: bind_Inr [OF a1])
    show ?thesis
      unfolding split_node_def
      using True
      apply (simp add: e q Let_def b1)
      apply (simp only: a2)
      apply (simp add: node_constrs_def sh(2))
      done
  next
    case False
    have g3: "\<And>k. k \<in> set [0..<nex] \<Longrightarrow>
        bindE (get2 nodes (int k) (int n)) (\<lambda>b.
        bindE (get2 output (int k) 0) (\<lambda>y.
        bindE (np_get (tree_value t) (int n)) (\<lambda>v.
          Inr (Indicator b True (TempConstr (var_expr y) EQUAL (const_expr v)))))) =
        Inr (Indicator (item nodes k n) True
               (TempConstr (var_expr (item output k 0)) EQUAL (const_expr (tree_value t ! n))))"
      using sh n len by (simp add: get2_def np_get_nat np_index_def)
    show ?thesis
      unfolding split_node_def
      using False
      apply (simp add: e q Let_def)
      apply (simp only: addConstrs_ok [OF g3])
      apply (simp add: node_constrs_def sh(2))
      done
  qed
qed

lemma attain_one_leaf_ok:
  assumes len: "length (children_left t) = capacity t" and sh: "shape1 nodes = capacity t"
  shows "attain_one_leaf t nodes m = (Inr (), m\<lparr>constrs := constrs m @ leaf_constrs t nodes\<rparr>)"
  unfolding attain_one_leaf_def Let_def
  by (simp add: columns_mask_leaf [OF len sh] addConstr_list_def sum_axis1_def leaf_constrs_def
      map_positions comp_def)

lemma np_min_Min: "xs \<noteq> [] \<Longrightarrow> np_min xs = Inr (Min (set xs))"
proof (cases xs)
  case (Cons a ys)
  have "Min (set (a # ys)) = fold min ys a"
    by (rule Min.set_eq_fold)
  then show ?thesis using Cons by (simp add: np_min_def)
qed simp

lemma np_max_Max: "xs \<noteq> [] \<Longrightarrow> np_max xs = Inr (Max (set xs))"
proof (cases xs)
  case (Cons a ys)
  have "Max (set (a # ys)) = fold max ys a"
    by (rule Max.set_eq_fold)
  then show ?thesis using Cons by (simp add: np_max_def)
qed simp

lemma output_bounds_ok:
  assumes "tree_value t \<noteq> []"
  shows "output_bounds t output m =
           (Inr (), m\<lparr>vars := with_bounds (vars m) output (Min (set (tree_value t)))
                                 (Max (set (tree_value t)))\<rparr>)"
  unfolding output_bounds_def
  using assms
  by (simp add: np_min_Min np_max_Max set_LB_def set_UB_def bind_def with_bounds_def
      cong: map_cong)

lemma encodable_nonzero:
  "encodable self t \<Longrightarrow> n < capacity t \<Longrightarrow>
     float_type self = py_float \<longrightarrow> convert (float_type self) (threshold t ! n) \<noteq> 0"
  by (simp add: encodable_def list_all_iff)

lemma mip_model_ok:
  assumes ok: "tree_ok (dt_tree p) (shape1 input)"
    and one: "dt_n_outputs p = 1"
    and sh: "shape0 input \<le> shape0 output" "shape1 output = 1"
    and able: "encodable self (dt_tree p)"
  shows "DecisionTreeRegressorConstr self p input output m =
           (Inr (new_mvar m (shape0 input) (capacity (dt_tree p))),
            \<lparr>vars = with_bounds
                      (vars m @ replicate (shape0 input * capacity (dt_tree p))
                                  \<lparr>VType = BINARY, LB = 0, UB = INFINITY\<rparr>)
                      output (Min (set (tree_value (dt_tree p)))) (Max (set (tree_value (dt_tree p)))),
             constrs = constrs m @
               tree_constrs self (dt_tree p) input output
                 (new_mvar m (shape0 input) (capacity (dt_tree p)))\<rparr>)"
proof -
  define t where "t = dt_tree p"
  define nodes where "nodes = new_mvar m (shape0 input) (capacity t)"
  have len: "length (children_left t) = capacity t" "tree_value t \<noteq> []"
    using ok by (auto simp: tree_ok_def t_def)
  have shn: "shape1 nodes = capacity t" "shape0 nodes = shape0 input"
    by (simp_all add: nodes_def new_mvar_def)
  have ok': "tree_ok t (shape1 input)"
    using ok by (simp add: t_def)
  have loop: "for_each [0..<capacity t] (split_node self t input output nodes (shape0 input)) m' =
      (Inr (), m'\<lparr>constrs := constrs m' @ concat (map (node_constrs self t input output nodes) [0..<capacity t])\<rparr>)"
    for m'
  proof (rule for_each_append)
    fix n M
    assume "n \<in> set [0..<capacity t]"
    then have n: "n < capacity t" by simp
    from split_node_ok [OF ok' shn(1) shn(2) refl sh n encodable_nonzero [OF able [folded t_def] n]]
    show "split_node self t input output nodes (shape0 input) n M =
        (Inr (), M\<lparr>constrs := constrs M @ node_constrs self t input output nodes n\<rparr>)" .
  qed
  have add: "bind (addMVar (shape0 input, capacity t) 0 INFINITY BINARY) g m =
      g nodes (m\<lparr>vars := vars m @ replicate (shape0 input * capacity t)
                                  \<lparr>VType = BINARY, LB = 0, UB = INFINITY\<rparr>\<rparr>)" for g :: "mvar \<Rightarrow> mvar gp"
    by (simp add: bind_def addMVar_def nodes_def new_mvar_def Let_def)
  have b1: "bind (intermediate_nodes t nodes) g m' =
      g () (m'\<lparr>constrs := constrs m' @ bulk_constrs t nodes\<rparr>)" for g :: "unit \<Rightarrow> mvar gp" and m'
    by (simp add: bind_def intermediate_nodes_ok [OF ok' shn(1)])
  have b2: "bind (for_each [0..<capacity t] (split_node self t input output nodes (shape0 input))) g m' =
      g () (m'\<lparr>constrs := constrs m' @ concat (map (node_constrs self t input output nodes) [0..<capacity t])\<rparr>)"
    for g :: "unit \<Rightarrow> mvar gp" and m'
    by (simp add: bind_def loop)
  have b3: "bind (attain_one_leaf t nodes) g m' =
      g () (m'\<lparr>constrs := constrs m' @ leaf_constrs t nodes\<rparr>)" for g :: "unit \<Rightarrow> mvar gp" and m'
    by (simp add: bind_def attain_one_leaf_ok [OF len(1) shn(1)])
  have b4: "bind (output_bounds t output) g m' =
      g () (m'\<lparr>vars := with_bounds (vars m') output (Min (set (tree_value t)))
                                 (Max (set (tree_value t)))\<rparr>)" for g :: "unit \<Rightarrow> mvar gp" and m'
    by (simp add: bind_def output_bounds_ok [OF len(2)])
  show ?thesis
    unfolding DecisionTreeRegressorConstr_def AbstractPredictorConstr_init_def
      DecisionTreeRegressorConstr_mip_model_def Let_def t_def [symmetric]
    using one sh
    apply (simp add: add)
    apply (simp add: b1)
    apply (simp add: b2)
    apply (simp add: b3)
    apply (simp add: b4)
    apply (simp add: return_def tree_constrs_def nodes_def [symmetric])
    done
qed

lemma expr_value_var [simp]: "expr_value x (var_expr v) = x v"
  by (simp add: var_expr_def)

lemma expr_value_const [simp]: "expr_value x (const_expr c) = c"
  by (simp add: const_expr_def)

lemma expr_value_add_vars [simp]: "expr_value x (add_vars a b) = x a + x b"
  by (simp add: add_vars_def var_expr_def)

lemma expr_value_sum [simp]: "expr_value x (sum_expr vs) = sum_list (map x vs)"
  by (simp add: sum_expr_def comp_def)

lemma expr_value_scale [simp]: "expr_value x (scale_expr a e) = a * expr_value x e"
proof (cases e)
  case (LinExpr ts c)
  have "sum_list (map (\<lambda>(b, v). a * b * x v) ts) = a * sum_list (map (\<lambda>(b, v). b * x v) ts)"
    by (induction ts) (auto simp: algebra_simps)
  then show ?thesis
    using LinExpr by (simp add: comp_def case_prod_unfold algebra_simps)
qed

lemma expr_value_add [simp]: "expr_value x (add_expr e f) = expr_value x e + expr_value x f"
  by (cases e; cases f) simp

lemma holds_ge [simp]: "holds_temp x (ge_constr a b) \<longleftrightarrow> x b \<le> x a"
  by (simp add: ge_constr_def)

lemma holds_le_expr [simp]: "holds_temp x (le_expr_constr a e) \<longleftrightarrow> x a \<le> expr_value x e"
  by (simp add: le_expr_constr_def)

lemma holds_le_const [simp]: "holds_temp x (le_const_constr c e) \<longleftrightarrow> expr_value x e \<le> c"
  by (simp add: le_const_constr_def)

lemma holds_eq_const [simp]: "holds_temp x (eq_const_constr c e) \<longleftrightarrow> expr_value x e = c"
  by (simp add: eq_const_constr_def)

lemma in_family:
  "k < r \<Longrightarrow> n \<in> set P \<Longrightarrow> G k n \<in> set (concat (map (\<lambda>k. map (G k) P) [0..<r]))"
  by auto

lemma Linear_mem:
  "c \<in> set A \<or> c \<in> set B \<or> c \<in> set C \<or> c \<in> set D \<Longrightarrow>
     Linear c \<in> set (map Linear (A @ B @ C @ D))"
  by auto

lemma node_constrs_subset:
  "n < capacity t \<Longrightarrow>
     set (node_constrs self t input output nodes n) \<subseteq> set (tree_constrs self t input output nodes)"
  by (fastforce simp: tree_constrs_def)

lemma bulk_constrs_subset:
  "set (bulk_constrs t nodes) \<subseteq> set (tree_constrs self t input output nodes)"
  by (simp add: tree_constrs_def)

lemma leaf_constrs_subset:
  "set (leaf_constrs t nodes) \<subseteq> set (tree_constrs self t input output nodes)"
  by (auto simp: tree_constrs_def)

lemma inner_nodes_iff: "n \<in> set (inner_nodes t) \<longleftrightarrow> n < capacity t \<and> 0 \<le> children_left t ! n"
  by (auto simp: inner_nodes_def)

lemma leaf_nodes_iff: "n \<in> set (leaf_nodes t) \<longleftrightarrow> n < capacity t \<and> children_left t ! n < 0"
  by (auto simp: leaf_nodes_def)

lemma tree_constrs_inner:
  assumes sat: "\<forall>c\<in>set (tree_constrs self t input output nodes). holds x c"
    and k: "k < shape0 nodes" and n: "n \<in> set (inner_nodes t)"
  shows "x (item nodes k (left_child t n)) \<le> x (item nodes k n)"
    and "x (item nodes k (right_child t n)) \<le> x (item nodes k n)"
    and "x (item nodes k n) \<le> x (item nodes k (right_child t n)) + x (item nodes k (left_child t n))"
    and "x (item nodes k (right_child t n)) + x (item nodes k (left_child t n)) \<le> 1"
    and "x (item nodes k (left_child t n)) = 1 \<Longrightarrow>
           x (item input k (nat (feature t ! n))) \<le> convert (float_type self) (threshold t ! n)"
    and "x (item nodes k (right_child t n)) = 1 \<Longrightarrow>
           float_add (convert (float_type self) (threshold t ! n)) (eps self) \<le> x (item input k (nat (feature t ! n)))"
proof -
  have b: "\<forall>c\<in>set (bulk_constrs t nodes). holds x c"
    using sat bulk_constrs_subset by blast
  have "Linear (ge_constr (item nodes k n) (item nodes k (left_child t n))) \<in> set (bulk_constrs t nodes)"
    unfolding bulk_constrs_def
    by (rule Linear_mem) (use in_family [OF k n, where G = "\<lambda>k n. ge_constr (item nodes k n) (item nodes k (left_child t n))"] in blast)
  with b have "holds x (Linear (ge_constr (item nodes k n) (item nodes k (left_child t n))))"
    by blast
  then show "x (item nodes k (left_child t n)) \<le> x (item nodes k n)"
    by simp
  have "Linear (ge_constr (item nodes k n) (item nodes k (right_child t n))) \<in> set (bulk_constrs t nodes)"
    unfolding bulk_constrs_def
    by (rule Linear_mem) (use in_family [OF k n, where G = "\<lambda>k n. ge_constr (item nodes k n) (item nodes k (right_child t n))"] in blast)
  with b have "holds x (Linear (ge_constr (item nodes k n) (item nodes k (right_child t n))))"
    by blast
  then show "x (item nodes k (right_child t n)) \<le> x (item nodes k n)"
    by simp
  have "Linear (le_expr_constr (item nodes k n)
          (add_vars (item nodes k (right_child t n)) (item nodes k (left_child t n)))) \<in> set (bulk_constrs t nodes)"
    unfolding bulk_constrs_def
    by (rule Linear_mem) (use in_family [OF k n, where G = "\<lambda>k n. le_expr_constr (item nodes k n)
          (add_vars (item nodes k (right_child t n)) (item nodes k (left_child t n)))"] in blast)
  with b have "holds x (Linear (le_expr_constr (item nodes k n)
          (add_vars (item nodes k (right_child t n)) (item nodes k (left_child t n)))))"
    by blast
  then show "x (item nodes k n) \<le> x (item nodes k (right_child t n)) + x (item nodes k (left_child t n))"
    by simp
  have "Linear (le_const_constr 1
          (add_vars (item nodes k (right_child t n)) (item nodes k (left_child t n)))) \<in> set (bulk_constrs t nodes)"
    unfolding bulk_constrs_def
    by (rule Linear_mem) (use in_family [OF k n, where G = "\<lambda>k n. le_const_constr 1
          (add_vars (item nodes k (right_child t n)) (item nodes k (left_child t n)))"] in blast)
  with b have "holds x (Linear (le_const_constr 1
          (add_vars (item nodes k (right_child t n)) (item nodes k (left_child t n)))))"
    by blast
  then show "x (item nodes k (right_child t n)) + x (item nodes k (left_child t n)) \<le> 1"
    by simp
  have nlt: "n < capacity t" and inner: "0 \<le> children_left t ! n"
    using n by (simp_all add: inner_nodes_iff)
  have nc: "\<forall>c\<in>set (node_constrs self t input output nodes n). holds x c"
    using sat node_constrs_subset [OF nlt] by blast
  have "Indicator (item nodes k (left_child t n)) True
          (TempConstr (var_expr (item input k (nat (feature t ! n)))) LESS_EQUAL
             (const_expr (convert (float_type self) (threshold t ! n))))
        \<in> set (node_constrs self t input output nodes n)"
    using k inner by (simp add: node_constrs_def)
  with nc have "holds x (Indicator (item nodes k (left_child t n)) True
          (TempConstr (var_expr (item input k (nat (feature t ! n)))) LESS_EQUAL
             (const_expr (convert (float_type self) (threshold t ! n)))))"
    by blast
  then show "x (item nodes k (left_child t n)) = 1 \<Longrightarrow>
           x (item input k (nat (feature t ! n))) \<le> convert (float_type self) (threshold t ! n)"
    by simp
  have "Indicator (item nodes k (right_child t n)) True
          (TempConstr (var_expr (item input k (nat (feature t ! n)))) GREATER_EQUAL
             (const_expr (float_add (convert (float_type self) (threshold t ! n)) (eps self))))
        \<in> set (node_constrs self t input output nodes n)"
    using k inner by (simp add: node_constrs_def)
  with nc have "holds x (Indicator (item nodes k (right_child t n)) True
          (TempConstr (var_expr (item input k (nat (feature t ! n)))) GREATER_EQUAL
             (const_expr (float_add (convert (float_type self) (threshold t ! n)) (eps self)))))"
    by blast
  then show "x (item nodes k (right_child t n)) = 1 \<Longrightarrow>
           float_add (convert (float_type self) (threshold t ! n)) (eps self) \<le> x (item input k (nat (feature t ! n)))"
    by simp
qed

lemma tree_constrs_leaf:
  assumes sat: "\<forall>c\<in>set (tree_constrs self t input output nodes). holds x c"
    and k: "k < shape0 nodes" and n: "n \<in> set (leaf_nodes t)"
    and act: "x (item nodes k n) = 1"
  shows "x (item output k 0) = tree_value t ! n"
proof -
  have nlt: "n < capacity t" and leaf: "children_left t ! n < 0"
    using n by (simp_all add: leaf_nodes_iff)
  have nc: "\<forall>c\<in>set (node_constrs self t input output nodes n). holds x c"
    using sat node_constrs_subset [OF nlt] by blast
  have "Indicator (item nodes k n) True
          (TempConstr (var_expr (item output k 0)) EQUAL (const_expr (tree_value t ! n)))
        \<in> set (node_constrs self t input output nodes n)"
    using k leaf by (simp add: node_constrs_def)
  with nc have "holds x (Indicator (item nodes k n) True
          (TempConstr (var_expr (item output k 0)) EQUAL (const_expr (tree_value t ! n))))"
    by blast
  with act show ?thesis
    by simp
qed

lemma tree_constrs_sum:
  assumes sat: "\<forall>c\<in>set (tree_constrs self t input output nodes). holds x c"
    and k: "k < shape0 nodes"
  shows "sum_list (map (\<lambda>n. x (item nodes k n)) (leaf_nodes t)) = 1"
proof -
  have "Linear (eq_const_constr 1 (sum_expr (map (item nodes k) (leaf_nodes t))))
        \<in> set (leaf_constrs t nodes)"
    using k by (simp add: leaf_constrs_def)
  with sat leaf_constrs_subset
  have "holds x (Linear (eq_const_constr 1 (sum_expr (map (item nodes k) (leaf_nodes t)))))"
    by blast
  then show ?thesis
    by (simp add: comp_def)
qed

lemma binary_sum_zero:
  "\<forall>n\<in>set xs. f n = (0::real) \<Longrightarrow> sum_list (map f xs) = 0"
  by (induction xs) simp_all

lemma binary_sum_nonneg:
  "\<forall>n\<in>set xs. f n = 0 \<or> f n = (1::real) \<Longrightarrow> 0 \<le> sum_list (map f xs)"
  by (induction xs) auto

lemma binary_sum_one_ex:
  assumes "\<forall>n\<in>set xs. f n = 0 \<or> f n = (1::real)" and "sum_list (map f xs) = 1"
  shows "\<exists>n\<in>set xs. f n = 1"
proof (rule ccontr)
  assume "\<not> (\<exists>n\<in>set xs. f n = 1)"
  with assms(1) have "\<forall>n\<in>set xs. f n = 0" by blast
  then have "sum_list (map f xs) = 0" by (rule binary_sum_zero)
  with assms(2) show False by simp
qed

lemma binary_sum_all_zero:
  assumes "\<forall>n\<in>set xs. f n = 0 \<or> f n = (1::real)" and "sum_list (map f xs) = 0"
  shows "\<forall>n\<in>set xs. f n = 0"
  using assms
proof (induction xs)
  case Nil
  then show ?case by simp
next
  case (Cons a xs)
  have nn: "0 \<le> sum_list (map f xs)"
    using Cons.prems(1) by (intro binary_sum_nonneg) simp
  have a: "f a = 0 \<or> f a = 1"
    using Cons.prems(1) by simp
  from Cons.prems(2) have "f a + sum_list (map f xs) = 0" by simp
  with nn a have "f a = 0" "sum_list (map f xs) = 0" by auto
  with Cons show ?case by simp
qed

lemma binary_sum_one_unique:
  assumes "distinct xs" and "\<forall>n\<in>set xs. f n = 0 \<or> f n = (1::real)"
    and "sum_list (map f xs) = 1"
  shows "\<exists>!n. n \<in> set xs \<and> f n = 1"
  using assms
proof (induction xs)
  case Nil
  then show ?case by simp
next
  case (Cons a xs)
  have a: "f a = 0 \<or> f a = 1"
    using Cons.prems(2) by simp
  have bin: "\<forall>n\<in>set xs. f n = 0 \<or> f n = 1"
    using Cons.prems(2) by simp
  from Cons.prems(3) have s: "f a + sum_list (map f xs) = 1" by simp
  from a show ?case
  proof
    assume z: "f a = 0"
    with s have "sum_list (map f xs) = 1" by simp
    with Cons.IH Cons.prems(1) bin have "\<exists>!n. n \<in> set xs \<and> f n = 1" by simp
    with z show ?thesis by auto
  next
    assume o: "f a = 1"
    with s have "sum_list (map f xs) = 0" by simp
    with bin have "\<forall>n\<in>set xs. f n = 0" by (rule binary_sum_all_zero)
    with o show ?thesis by auto
  qed
qed

lemma rooted_children:
  assumes "rooted t" "n \<in> set (inner_nodes t)"
  shows "n < left_child t n" "n < right_child t n"
  using assms by (auto simp: rooted_def inner_nodes_iff list_all_iff left_child_def right_child_def)

lemma rooted_parent:
  assumes "rooted t" "n < capacity t" "0 < n"
  shows "\<exists>p. p < n \<and> p \<in> set (inner_nodes t) \<and> (left_child t p = n \<or> right_child t p = n)"
proof -
  from assms have "list_ex (\<lambda>p. 0 \<le> children_left t ! p \<and>
      (children_left t ! p = int n \<or> children_right t ! p = int n)) [0..<n]"
    by (auto simp: rooted_def list_all_iff)
  then obtain p where p: "p < n" "0 \<le> children_left t ! p"
      "children_left t ! p = int n \<or> children_right t ! p = int n"
    by (auto simp: list_ex_iff)
  with assms(2) have "p \<in> set (inner_nodes t)"
    by (simp add: inner_nodes_iff)
  moreover from p(3) have "left_child t p = n \<or> right_child t p = n"
    by (auto simp: left_child_def right_child_def)
  ultimately show ?thesis using p(1) by blast
qed

lemma root_active:
  assumes rt: "rooted t"
    and bin: "\<And>n. n < capacity t \<Longrightarrow> act n = 0 \<or> act n = (1::real)"
    and par: "\<And>n. n \<in> set (inner_nodes t) \<Longrightarrow> act (left_child t n) \<le> act n \<and> act (right_child t n) \<le> act n"
  shows "n < capacity t \<Longrightarrow> act n = 1 \<Longrightarrow> act 0 = 1"
proof (induction n rule: less_induct)
  case (less n)
  show ?case
  proof (cases "n = 0")
    case True
    with less.prems show ?thesis by simp
  next
    case False
    with rooted_parent [OF rt less.prems(1)]
    obtain p where p: "p < n" "p \<in> set (inner_nodes t)" "left_child t p = n \<or> right_child t p = n"
      by auto
    have pc: "p < capacity t"
      using p(2) by (simp add: inner_nodes_iff)
    from par [OF p(2)] p(3) less.prems(2) have "1 \<le> act p" by auto
    with bin [OF pc] have "act p = 1" by auto
    with less.IH [OF p(1) pc] show ?thesis by simp
  qed
qed

lemma with_float_type_simps [simp]:
  "capacity (with_float_type f t) = capacity t"
  "children_left (with_float_type f t) = children_left t"
  "children_right (with_float_type f t) = children_right t"
  "feature (with_float_type f t) = feature t"
  "tree_value (with_float_type f t) = tree_value t"
  by (simp_all add: with_float_type_def)

lemma with_float_type_threshold:
  "n < length (threshold t) \<Longrightarrow> threshold (with_float_type f t) ! n = convert f (threshold t ! n)"
  by (simp add: with_float_type_def)

lemma descend_active:
  assumes ok: "tree_ok t nfeat" and rt: "rooted t"
    and bin: "\<And>n. n < capacity t \<Longrightarrow> act n = 0 \<or> act n = (1::real)"
    and one: "\<And>n. n \<in> set (inner_nodes t) \<Longrightarrow>
                act n \<le> act (right_child t n) + act (left_child t n) \<and> act (right_child t n) + act (left_child t n) \<le> 1"
    and le: "\<And>n. n \<in> set (inner_nodes t) \<Longrightarrow> act (left_child t n) = 1 \<Longrightarrow>
                xv (nat (feature t ! n)) \<le> convert f (threshold t ! n)"
    and ge: "\<And>n. n \<in> set (inner_nodes t) \<Longrightarrow> act (right_child t n) = 1 \<Longrightarrow>
                convert f (threshold t ! n) < xv (nat (feature t ! n))"
  shows "n < capacity t \<Longrightarrow> act n = 1 \<Longrightarrow> capacity t - n \<le> fuel \<Longrightarrow>
           \<exists>l. descend fuel (with_float_type f t) xv n = Some l \<and> l \<in> set (leaf_nodes t) \<and> act l = 1"
proof (induction fuel arbitrary: n)
  case 0
  then show ?case by simp
next
  case (Suc fuel)
  show ?case
  proof (cases "children_left t ! n < 0")
    case True
    with Suc.prems show ?thesis by (simp add: leaf_nodes_iff)
  next
    case False
    with Suc.prems(1) have inner: "n \<in> set (inner_nodes t)"
      by (simp add: inner_nodes_iff)
    have thr: "threshold (with_float_type f t) ! n = convert f (threshold t ! n)"
      using ok Suc.prems(1) by (simp add: with_float_type_threshold tree_ok_def)
    have lc: "left_child t n < capacity t" and rc: "right_child t n < capacity t"
      using tree_ok_inner [OF ok inner] by (simp_all add: left_child_def right_child_def)
    have lgt: "n < left_child t n" and rgt: "n < right_child t n"
      using rooted_children [OF rt inner] by simp_all
    from one [OF inner] Suc.prems(2) bin [OF lc] bin [OF rc]
    consider (L) "act (left_child t n) = 1" "act (right_child t n) = 0"
      | (R) "act (right_child t n) = 1" "act (left_child t n) = 0"
      by fastforce
    then show ?thesis
    proof cases
      case L
      have "xv (nat (feature t ! n)) \<le> convert f (threshold t ! n)"
        using le [OF inner L(1)] .
      then have "descend (Suc fuel) (with_float_type f t) xv n =
          descend fuel (with_float_type f t) xv (left_child t n)"
        using False by (simp add: thr left_child_def)
      moreover have "capacity t - left_child t n \<le> fuel"
        using Suc.prems(3) lgt by simp
      ultimately show ?thesis
        using Suc.IH [OF lc L(1)] by simp
    next
      case R
      have "\<not> xv (nat (feature t ! n)) \<le> convert f (threshold t ! n)"
        using ge [OF inner R(1)] by simp
      then have "descend (Suc fuel) (with_float_type f t) xv n =
          descend fuel (with_float_type f t) xv (right_child t n)"
        using False by (simp add: thr right_child_def)
      moreover have "capacity t - right_child t n \<le> fuel"
        using Suc.prems(3) rgt by simp
      ultimately show ?thesis
        using Suc.IH [OF rc R(1)] by simp
    qed
  qed
qed

lemma extends_refl [simp]: "extends m m"
  by (simp add: extends_def)

lemma extends_trans:
  assumes "extends m m'" and "extends m' m''"
  shows "extends m m''"
proof -
  have "VType (vars m'' ! v) = VType (vars m ! v)" if "v < length (vars m)" for v
  proof -
    from that assms(1) have "v < length (vars m')" "VType (vars m' ! v) = VType (vars m ! v)"
      by (simp_all add: extends_def)
    with assms(2) show ?thesis by (simp add: extends_def)
  qed
  moreover have "length (vars m) \<le> length (vars m'')"
    using assms by (simp add: extends_def)
  moreover have "set (constrs m) \<subseteq> set (constrs m'')"
    using assms by (auto simp: extends_def)
  ultimately show ?thesis by (simp add: extends_def)
qed

lemma tree_encoded_mono:
  assumes "tree_encoded self t input output nodes m" and "extends m m'"
  shows "tree_encoded self t input output nodes m'"
proof -
  have "item nodes k n < length (vars m') \<and> VType (vars m' ! item nodes k n) = BINARY"
    if "k < shape0 nodes" "n < capacity t" for k n
  proof -
    from that assms(1) have "item nodes k n < length (vars m)"
        "VType (vars m ! item nodes k n) = BINARY"
      by (simp_all add: tree_encoded_def)
    with assms(2) show ?thesis by (simp add: extends_def)
  qed
  moreover have "set (tree_constrs self t input output nodes) \<subseteq> set (constrs m')"
    using assms by (auto simp: tree_encoded_def extends_def)
  ultimately show ?thesis
    using assms(1) by (simp add: tree_encoded_def)
qed

lemma feasible_constr: "feasible m x \<Longrightarrow> c \<in> set (constrs m) \<Longrightarrow> holds x c"
  by (simp add: feasible_def list_all_iff)

lemma feasible_binary:
  "feasible m x \<Longrightarrow> v < length (vars m) \<Longrightarrow> VType (vars m ! v) = BINARY \<Longrightarrow> x v = 0 \<or> x v = 1"
  by (auto simp: feasible_def list_all_iff admissible_def)

lemma feasible_bounds:
  assumes "feasible m x" "v < length (vars m)"
  shows "- (10 ^ 20) < LB (vars m ! v) \<Longrightarrow> LB (vars m ! v) \<le> x v"
    and "UB (vars m ! v) < 10 ^ 20 \<Longrightarrow> x v \<le> UB (vars m ! v)"
proof -
  from assms have adm: "admissible (vars m ! v) (x v)"
    by (simp add: feasible_def list_all_iff)
  show "- (10 ^ 20) < LB (vars m ! v) \<Longrightarrow> LB (vars m ! v) \<le> x v"
    using adm by (auto simp: admissible_def)
  show "UB (vars m ! v) < 10 ^ 20 \<Longrightarrow> x v \<le> UB (vars m ! v)"
    using adm by (auto simp: admissible_def)
qed

lemma encoded_sat:
  assumes "tree_encoded self t input output nodes m" and "feasible m x"
  shows "\<forall>c\<in>set (tree_constrs self t input output nodes). holds x c"
  using assms feasible_constr unfolding tree_encoded_def by blast

lemma encoded_binary:
  assumes "tree_encoded self t input output nodes m" and "feasible m x"
    and "k < shape0 input" and "n < capacity t"
  shows "x (item nodes k n) = 0 \<or> x (item nodes k n) = 1"
  using assms feasible_binary unfolding tree_encoded_def by simp

lemma encoded_one_leaf:
  assumes enc: "tree_encoded self t input output nodes m" and feas: "feasible m x"
    and k: "k < shape0 input"
  shows "\<exists>!n. n \<in> set (leaf_nodes t) \<and> x (item nodes k n) = 1"
proof -
  have k': "k < shape0 nodes"
    using enc k by (simp add: tree_encoded_def)
  have "distinct (leaf_nodes t)"
    by (simp add: leaf_nodes_def)
  moreover have "\<forall>n\<in>set (leaf_nodes t). x (item nodes k n) = 0 \<or> x (item nodes k n) = 1"
    using encoded_binary [OF enc feas k] by (simp add: leaf_nodes_iff)
  moreover have "sum_list (map (\<lambda>n. x (item nodes k n)) (leaf_nodes t)) = 1"
    using tree_constrs_sum [OF encoded_sat [OF enc feas] k'] .
  ultimately show ?thesis
    by (rule binary_sum_one_unique)
qed

lemma encoded_round_trip:
  assumes enc: "tree_encoded self t input output nodes m" and feas: "feasible m x"
    and ok: "tree_ok t nfeat" and rt: "rooted t" and eps: "margin_kept self t"
    and k: "k < shape0 input"
  shows "predict (with_float_type (float_type self) t) (\<lambda>f. x (item input k f)) =
           Some (x (item output k 0))"
proof -
  define act where "act n = x (item nodes k n)" for n
  have k': "k < shape0 nodes"
    using enc k by (simp add: tree_encoded_def)
  note sat = encoded_sat [OF enc feas]
  have bin: "\<And>n. n < capacity t \<Longrightarrow> act n = 0 \<or> act n = 1"
    unfolding act_def using encoded_binary [OF enc feas k] .
  obtain l0 where l0: "l0 \<in> set (leaf_nodes t)" "act l0 = 1"
    using encoded_one_leaf [OF enc feas k] unfolding act_def by blast
  have par: "\<And>n. n \<in> set (inner_nodes t) \<Longrightarrow>
      act (left_child t n) \<le> act n \<and> act (right_child t n) \<le> act n"
    unfolding act_def using tree_constrs_inner(1,2) [OF sat k'] by blast
  have root: "act 0 = 1"
    using root_active [where act = act and n = l0, OF rt bin par] l0 by (simp add: leaf_nodes_iff)
  have cap: "0 < capacity t"
    using ok by (simp add: tree_ok_def)
  have one: "\<And>n. n \<in> set (inner_nodes t) \<Longrightarrow>
      act n \<le> act (right_child t n) + act (left_child t n) \<and>
      act (right_child t n) + act (left_child t n) \<le> 1"
    unfolding act_def using tree_constrs_inner(3,4) [OF sat k'] by blast
  have le: "\<And>n. n \<in> set (inner_nodes t) \<Longrightarrow> act (left_child t n) = 1 \<Longrightarrow>
      x (item input k (nat (feature t ! n))) \<le> convert (float_type self) (threshold t ! n)"
    unfolding act_def using tree_constrs_inner(5) [OF sat k'] by blast
  have ge: "convert (float_type self) (threshold t ! n) < x (item input k (nat (feature t ! n)))"
    if "n \<in> set (inner_nodes t)" "act (right_child t n) = 1" for n
  proof -
    have "float_add (convert (float_type self) (threshold t ! n)) (eps self) \<le>
        x (item input k (nat (feature t ! n)))"
      using that unfolding act_def using tree_constrs_inner(6) [OF sat k'] by blast
    moreover have "convert (float_type self) (threshold t ! n) <
        float_add (convert (float_type self) (threshold t ! n)) (eps self)"
      using eps that(1) by (simp add: margin_kept_def list_all_iff inner_nodes_iff)
    ultimately show ?thesis by simp
  qed
  obtain l where l: "descend (capacity t) (with_float_type (float_type self) t)
        (\<lambda>f. x (item input k f)) 0 = Some l" "l \<in> set (leaf_nodes t)" "act l = 1"
  proof -
    have "capacity t - 0 \<le> capacity t" by simp
    from descend_active [where act = act and xv = "\<lambda>f. x (item input k f)"
        and f = "float_type self" and t = t and nfeat = nfeat,
        OF ok rt bin one le ge cap root this]
    show ?thesis using that by blast
  qed
  have "x (item output k 0) = tree_value t ! l"
    using tree_constrs_leaf [OF sat k' l(2)] l(3) by (simp add: act_def)
  with l(1) show ?thesis
    by (simp add: predict_def)
qed

lemma node_index_bound: "k < r \<Longrightarrow> j < c \<Longrightarrow> k * c + j < r * (c::nat)"
proof -
  assume a: "k < r" "j < c"
  then have "k * c + j < Suc k * c" by simp
  also have "\<dots> \<le> r * c" using a(1) by (intro mult_le_mono1) simp
  finally show ?thesis .
qed

lemma with_bounds_length [simp]: "length (with_bounds vs output lo hi) = length vs"
  by (simp add: with_bounds_def)

lemma with_bounds_VType:
  "v < length vs \<Longrightarrow> VType (with_bounds vs output lo hi ! v) = VType (vs ! v)"
  by (simp add: with_bounds_def)

lemma tree_step:
  assumes ok: "tree_ok (dt_tree p) (shape1 input)" and one: "dt_n_outputs p = 1"
    and sh: "shape0 input \<le> shape0 output" "shape1 output = 1"
    and able: "encodable self (dt_tree p)"
  shows "\<exists>m'. DecisionTreeRegressorConstr self p input output m =
                  (Inr (new_mvar m (shape0 input) (capacity (dt_tree p))), m') \<and>
               extends m m' \<and>
               tree_encoded self (dt_tree p) input output
                 (new_mvar m (shape0 input) (capacity (dt_tree p))) m' \<and>
               constrs m' = constrs m @ tree_constrs self (dt_tree p) input output
                 (new_mvar m (shape0 input) (capacity (dt_tree p))) \<and>
               vars m' = with_bounds
                      (vars m @ replicate (shape0 input * capacity (dt_tree p))
                                  \<lparr>VType = BINARY, LB = 0, UB = INFINITY\<rparr>)
                      output (Min (set (tree_value (dt_tree p)))) (Max (set (tree_value (dt_tree p))))"
proof -
  let ?nodes = "new_mvar m (shape0 input) (capacity (dt_tree p))"
  let ?vs = "vars m @ replicate (shape0 input * capacity (dt_tree p))
                                  \<lparr>VType = BINARY, LB = 0, UB = INFINITY\<rparr>"
  let ?m' = "\<lparr>vars = with_bounds ?vs output (Min (set (tree_value (dt_tree p))))
                      (Max (set (tree_value (dt_tree p)))),
             constrs = constrs m @ tree_constrs self (dt_tree p) input output ?nodes\<rparr>"
  have run: "DecisionTreeRegressorConstr self p input output m = (Inr ?nodes, ?m')"
    by (rule mip_model_ok [OF ok one sh able])
  have ext: "extends m ?m'"
    by (simp add: extends_def with_bounds_VType nth_append)
  have "item ?nodes k n < length (vars ?m') \<and> VType (vars ?m' ! item ?nodes k n) = BINARY"
    if "k < shape0 input" "n < capacity (dt_tree p)" for k n
  proof -
    have b: "k * capacity (dt_tree p) + n < shape0 input * capacity (dt_tree p)"
      using that by (rule node_index_bound)
    then have lt: "item ?nodes k n < length ?vs"
      by (simp add: new_mvar_def)
    have "?vs ! item ?nodes k n = \<lparr>VType = BINARY, LB = 0, UB = INFINITY\<rparr>"
      using b by (simp add: new_mvar_def nth_append add.assoc)
    with lt show ?thesis
      by (simp add: with_bounds_VType)
  qed
  then have enc: "tree_encoded self (dt_tree p) input output ?nodes ?m'"
    by (simp add: tree_encoded_def new_mvar_def)
  show ?thesis
    using run ext enc by (intro exI [of _ ?m']) simp
qed

lemma input_values_eq: "input_values x input k = (\<lambda>f. x (item input k f))"
  by (rule ext) (simp add: input_values_def)

lemma new_mvar_simps [simp]:
  "shape0 (new_mvar m r c) = r"
  "shape1 (new_mvar m r c) = c"
  "item (new_mvar m r c) k j = length (vars m) + k * c + j"
  by (simp_all add: new_mvar_def)

lemma lift_bindE: "bind (lift (bindE a f)) g = bind (lift a) (\<lambda>x. bind (lift (f x)) g)"
  by (cases a) simp_all

lemma collect_ok:
  assumes step: "\<And>i A. i \<in> set ixs \<Longrightarrow> \<exists>y B. body i A = (Inr y, B) \<and> extends A B \<and> Q i y B"
    and mono: "\<And>i y A B. Q i y A \<Longrightarrow> extends A B \<Longrightarrow> Q i y B"
  shows "\<exists>ys M'. collect ixs body M = (Inr ys, M') \<and> extends M M' \<and> length ys = length ixs \<and>
           (\<forall>j<length ixs. Q (ixs ! j) (ys ! j) M')"
  using step
proof (induction ixs arbitrary: M)
  case Nil
  then show ?case by (simp add: return_def)
next
  case (Cons i ixs)
  obtain y M1 where b: "body i M = (Inr y, M1)" and e1: "extends M M1" and q: "Q i y M1"
    using Cons.prems [of i M] by auto
  obtain ys M2 where c: "collect ixs body M1 = (Inr ys, M2)" and e2: "extends M1 M2"
    and len: "length ys = length ixs" and qs: "\<forall>j<length ixs. Q (ixs ! j) (ys ! j) M2"
    using Cons.IH [of M1] Cons.prems by auto
  have run: "collect (i # ixs) body M = (Inr (y # ys), M2)"
    using b c by (simp add: bind_def return_def)
  have "Q ((i # ixs) ! j) ((y # ys) ! j) M2" if "j < length (i # ixs)" for j
  proof (cases j)
    case 0
    then show ?thesis using mono [OF q e2] by simp
  next
    case (Suc j')
    then show ?thesis using qs that by simp
  qed
  with run extends_trans [OF e1 e2] len show ?case by simp
qed

lemma column_ok:
  "i < shape1 a \<Longrightarrow> column a (int i) = Inr (map (\<lambda>k. item a k i) [0..<shape0 a])"
  by (simp add: column_def)

lemma as_column_simps [simp]:
  "shape0 (as_column vs) = length vs"
  "shape1 (as_column vs) = 1"
  "item (as_column vs) k j = vs ! k"
  by (simp_all add: as_column_def)

lemma ensemble_trees_ok:
  assumes trees: "\<And>i. i < N \<Longrightarrow> get i = Inr (p i) \<and> tree_ok (dt_tree (p i)) (shape1 input) \<and>
                      dt_n_outputs (p i) = 1 \<and> encodable P (dt_tree (p i))"
    and tv: "shape0 tv = shape0 input" "shape1 tv = N"
  shows "\<exists>ys M'. collect [0..<N] (\<lambda>i.
                    bind (lift (get i)) (\<lambda>tree.
                    bind (lift (column tv (int i))) (\<lambda>out.
                    DecisionTreeRegressorConstr P tree input (as_column out)))) M = (Inr ys, M') \<and>
           extends M M' \<and> length ys = N \<and>
           (\<forall>i<N. tree_encoded P (dt_tree (p i)) input (slice tv i) (ys ! i) M')"
proof -
  let ?body = "\<lambda>i. bind (lift (get i)) (\<lambda>tree.
                    bind (lift (column tv (int i))) (\<lambda>out.
                    DecisionTreeRegressorConstr P tree input (as_column out)))"
  let ?Q = "\<lambda>i y M. i < N \<and> tree_encoded P (dt_tree (p i)) input (slice tv i) y M"
  have step: "\<exists>y M'. ?body i M = (Inr y, M') \<and> extends M M' \<and> ?Q i y M'"
    if "i \<in> set [0..<N]" for i M
  proof -
    from that have i: "i < N" by simp
    note t = trees [OF i]
    have sh: "shape0 input \<le> shape0 (slice tv i)" "shape1 (slice tv i) = 1"
      using tv by (simp_all add: slice_def)
    obtain m' where run: "DecisionTreeRegressorConstr P (p i) input (slice tv i) M =
        (Inr (new_mvar M (shape0 input) (capacity (dt_tree (p i)))), m')"
      and ext: "extends M m'"
      and enc: "tree_encoded P (dt_tree (p i)) input (slice tv i)
                  (new_mvar M (shape0 input) (capacity (dt_tree (p i)))) m'"
      using tree_step [of "p i" input "slice tv i" P M] t sh by blast
    have "?body i M = DecisionTreeRegressorConstr P (p i) input (slice tv i) M"
      using t i tv by (simp add: column_ok slice_def)
    with run ext enc i show ?thesis by simp
  qed
  have mono: "?Q i y B" if "?Q i y A" "extends A B" for i y A B
    using that tree_encoded_mono by blast
  have "\<exists>ys M'. collect [0..<N] ?body M = (Inr ys, M') \<and> extends M M' \<and>
      length ys = length [0..<N] \<and> (\<forall>j<length [0..<N]. ?Q ([0..<N] ! j) (ys ! j) M')"
    by (rule collect_ok [where Q = ?Q]) (use step mono in blast)+
  then show ?thesis by simp
qed

lemma map2_same: "map2 f (map g xs) (map h xs) = map (\<lambda>x. f (g x) (h x)) xs"
  by (induction xs) simp_all

lemma column_zero:
  "0 < shape1 a \<Longrightarrow> column a 0 = Inr (map (\<lambda>k. item a k 0) [0..<shape0 a])"
  by (simp add: column_def np_index_def)

lemma extends_addMVar:
  "addMVar (r, c) lb ub vt m = (Inr (new_mvar m r c), m\<lparr>vars := vars m @ replicate (r * c) \<lparr>VType = vt, LB = lb, UB = ub\<rparr>\<rparr>)"
  "extends m (m\<lparr>vars := vars m @ vs\<rparr>)"
  by (simp_all add: addMVar_def Let_def new_mvar_def extends_def nth_append)

lemma extends_addConstr_list:
  "extends m (m\<lparr>constrs := constrs m @ cs\<rparr>)"
  by (simp add: extends_def)

lemma extends_VType:
  "extends m m' \<Longrightarrow> v < length (vars m) \<Longrightarrow>
     v < length (vars m') \<and> VType (vars m' ! v) = VType (vars m ! v)"
  by (simp add: extends_def)

lemma slice_item: "k < shape0 tv \<Longrightarrow> item (slice tv i) k j = item tv k i"
  by (simp add: slice_def)

lemma default_params_simps [simp]:
  "float_type default_params = np_float32" "scale default_params = 1"
  by (simp_all add: default_params_def)

lemmas round_simps = round_to_def isfinite_def convert_def float_add_def binary16_def binary32_def
  binary64_def exponent_def exponent_up.simps exponent_down.simps round_even_def power_int_def
  Let_def power_divide

lemma default_eps: "eps default_params = 4722366482869645 / 4722366482869645213696"
  by (simp add: default_params_def round_simps)

lemma forest_run:
  assumes n1: "rf_n_outputs predictor = 1"
    and len: "rf_n_estimators predictor \<le> length (rf_estimators predictor)"
    and trees: "\<forall>i<rf_n_estimators predictor.
        tree_ok (dt_tree (rf_estimators predictor ! i)) (shape1 input) \<and>
        dt_n_outputs (rf_estimators predictor ! i) = 1 \<and>
        encodable default_params (dt_tree (rf_estimators predictor ! i))"
    and sh: "shape0 output = shape0 input" "0 < shape1 output"
  shows "\<exists>ys M2. RandomForestRegressorConstr predictor input output m =
           (Inr \<lparr>treevars = new_mvar m (shape0 input) (rf_n_estimators predictor), estimators = ys\<rparr>,
            M2\<lparr>constrs := constrs M2 @
               map (\<lambda>k. Linear (TempConstr
                      (scale_expr (real (rf_n_estimators predictor)) (var_expr (item output k 0)))
                      EQUAL
                      (sum_expr (map (item (new_mvar m (shape0 input) (rf_n_estimators predictor)) k)
                         [0..<rf_n_estimators predictor]))))
                 [0..<shape0 input]\<rparr>) \<and>
         extends (m\<lparr>vars := vars m @ replicate (shape0 input * rf_n_estimators predictor)
                       \<lparr>VType = CONTINUOUS, LB = - INFINITY, UB = INFINITY\<rparr>\<rparr>) M2 \<and>
         length ys = rf_n_estimators predictor \<and>
         (\<forall>i<rf_n_estimators predictor.
            tree_encoded default_params (dt_tree (rf_estimators predictor ! i)) input
              (slice (new_mvar m (shape0 input) (rf_n_estimators predictor)) i) (ys ! i) M2)"
proof -
  let ?N = "rf_n_estimators predictor"
  let ?nex = "shape0 input"
  define tv where "tv = new_mvar m ?nex ?N"
  have tvs: "shape0 tv = ?nex" "shape1 tv = ?N"
    by (simp_all add: tv_def)
  let ?M1 = "m\<lparr>vars := vars m @ replicate (?nex * ?N)
                       \<lparr>VType = CONTINUOUS, LB = - INFINITY, UB = INFINITY\<rparr>\<rparr>"
  let ?body = "\<lambda>i. bind (lift (np_get (rf_estimators predictor) (int i))) (\<lambda>tree.
                    bind (lift (column tv (int i))) (\<lambda>out.
                    DecisionTreeRegressorConstr default_params tree input (as_column out)))"
  have get: "np_get (rf_estimators predictor) (int i) = Inr (rf_estimators predictor ! i) \<and>
      tree_ok (dt_tree (rf_estimators predictor ! i)) (shape1 input) \<and>
      dt_n_outputs (rf_estimators predictor ! i) = 1 \<and>
      encodable default_params (dt_tree (rf_estimators predictor ! i))" if "i < ?N" for i
    using that len trees by (simp add: np_get_nat)
  obtain ys M2 where loop: "collect [0..<?N] ?body ?M1 = (Inr ys, M2)"
    and ext: "extends ?M1 M2" and ylen: "length ys = ?N"
    and enc: "\<forall>i<?N. tree_encoded default_params (dt_tree (rf_estimators predictor ! i))
        input (slice tv i) (ys ! i) M2"
    using ensemble_trees_ok [where get = "\<lambda>i. np_get (rf_estimators predictor) (int i)"
        and p = "\<lambda>i. rf_estimators predictor ! i" and N = ?N and tv = tv and input = input
        and P = default_params and M = ?M1, OF get tvs]
    by auto
  have cs: "bindE (column output 0) (\<lambda>out0.
        zip_lists (\<lambda>y s. TempConstr (scale_expr (real ?N) (var_expr y)) EQUAL s)
          out0 (sum_axis1 tv)) =
      Inr (map (\<lambda>k. TempConstr (scale_expr (real ?N) (var_expr (item output k 0))) EQUAL
                     (sum_expr (map (item tv k) [0..<?N]))) [0..<?nex])"
    using sh tvs by (simp add: column_zero zip_lists_def sum_axis1_def map2_same)
  have add: "addMVar (?nex, ?N) (- INFINITY) INFINITY CONTINUOUS m = (Inr tv, ?M1)"
    by (simp add: extends_addMVar(1) tv_def)
  have "RandomForestRegressorConstr predictor input output m =
      (Inr \<lparr>treevars = tv, estimators = ys\<rparr>,
       M2\<lparr>constrs := constrs M2 @
          map (\<lambda>k. Linear (TempConstr (scale_expr (real ?N) (var_expr (item output k 0))) EQUAL
                     (sum_expr (map (item tv k) [0..<?N])))) [0..<?nex]\<rparr>)"
    unfolding RandomForestRegressorConstr_def AbstractPredictorConstr_init_def
      RandomForestRegressorConstr_mip_model_def Let_def
    using n1
    apply (simp add: bind_def add loop)
    apply (simp add: cs)
    apply (simp add: bind_def addConstr_list_def return_def comp_def)
    done
  with ext ylen enc show ?thesis unfolding tv_def by blast
qed

lemma treevars_continuous:
  assumes ext: "extends (m\<lparr>vars := vars m @ replicate (r * c) \<lparr>VType = CONTINUOUS, LB = lb, UB = ub\<rparr>\<rparr>) m'"
    and k: "k < r" and i: "i < c"
  shows "length (vars m) \<le> item (new_mvar m r c) k i \<and>
         item (new_mvar m r c) k i < length (vars m') \<and>
         VType (vars m' ! item (new_mvar m r c) k i) = CONTINUOUS"
proof -
  let ?M1 = "m\<lparr>vars := vars m @ replicate (r * c) \<lparr>VType = CONTINUOUS, LB = lb, UB = ub\<rparr>\<rparr>"
  have b: "k * c + i < r * c"
    using k i by (rule node_index_bound)
  then have lt: "item (new_mvar m r c) k i < length (vars ?M1)"
    by simp
  have "vars ?M1 ! item (new_mvar m r c) k i = \<lparr>VType = CONTINUOUS, LB = lb, UB = ub\<rparr>"
    using b by (simp add: nth_append add.assoc)
  with extends_VType [OF ext lt] show ?thesis by simp
qed

lemma encoded_slice_round_trip:
  assumes enc: "tree_encoded self t input (slice tv i) nodes M" and feas: "feasible M x"
    and ok: "tree_ok t nfeat" and rt: "rooted t" and eps: "margin_kept self t"
    and k: "k < shape0 input" and tv: "shape0 tv = shape0 input"
  shows "predict (with_float_type (float_type self) t) (input_values x input k) =
           Some (x (item tv k i))"
  using encoded_round_trip [OF enc feas ok rt eps k] k tv
  by (simp add: input_values_eq slice_item)

section \<open>The encoder on trees with one split\<close>


lemma upt_3: "[0..<3] = [0, 1, 2]"
  by (simp add: upt_conv_Cons)

lemma upt_2: "[0..<2] = [0, 1]"
  by (simp add: upt_conv_Cons)

lemma sample_model_simps [simp]:
  "length (vars sample_model) = 2"
  "constrs sample_model = []"
  by (simp_all add: sample_model_def)

lemma sample_elements [simp]: "elements sample_output = [1]"
  by (simp add: elements_def sample_output_def)

lemma sample_shapes [simp]:
  "shape0 sample_input = 1" "shape1 sample_input = 1"
  "shape0 sample_output = 1" "shape1 sample_output = 1"
  "item sample_input k j = 0" "item sample_output k j = 1"
  by (simp_all add: sample_input_def sample_output_def)

lemma one_split_ok:
  assumes "capacity t = 3" and "children_left t = [1, - 1, - 1]"
    and "children_right t = [2, - 1, - 1]" and "feature t = [0, - 2, - 2]"
    and "length (threshold t) = 3" and "length (tree_value t) = 3"
  shows "tree_ok t 1" and "rooted t" and "inner_nodes t = [0]" and "leaf_nodes t = [1, 2]"
  using assms
  by (simp_all add: tree_ok_def rooted_def inner_nodes_def leaf_nodes_def upt_conv_Cons)

lemma one_split_constrs:
  assumes "capacity t = 3" and "children_left t = [1, - 1, - 1]"
    and "children_right t = [2, - 1, - 1]" and "feature t = [0, - 2, - 2]"
    and "shape0 nodes = 1"
  shows "tree_constrs P t input output nodes =
     [Linear (ge_constr (item nodes 0 0) (item nodes 0 1)),
      Linear (ge_constr (item nodes 0 0) (item nodes 0 2)),
      Linear (le_expr_constr (item nodes 0 0) (add_vars (item nodes 0 2) (item nodes 0 1))),
      Linear (le_const_constr 1 (add_vars (item nodes 0 2) (item nodes 0 1))),
      Indicator (item nodes 0 1) True
        (TempConstr (var_expr (item input 0 0)) LESS_EQUAL
           (const_expr (convert (float_type P) (threshold t ! 0)))),
      Indicator (item nodes 0 2) True
        (TempConstr (var_expr (item input 0 0)) GREATER_EQUAL
           (const_expr (float_add (convert (float_type P) (threshold t ! 0)) (eps P)))),
      Indicator (item nodes 0 1) True
        (TempConstr (var_expr (item output 0 0)) EQUAL (const_expr (tree_value t ! 1))),
      Indicator (item nodes 0 2) True
        (TempConstr (var_expr (item output 0 0)) EQUAL (const_expr (tree_value t ! 2))),
      Linear (eq_const_constr 1 (sum_expr [item nodes 0 1, item nodes 0 2]))]"
proof -
  have inner: "inner_nodes t = [0]" and leaf: "leaf_nodes t = [1, 2]"
    using assms by (simp_all add: inner_nodes_def leaf_nodes_def upt_conv_Cons)
  have b: "bulk_constrs t nodes =
     [Linear (ge_constr (item nodes 0 0) (item nodes 0 1)),
      Linear (ge_constr (item nodes 0 0) (item nodes 0 2)),
      Linear (le_expr_constr (item nodes 0 0) (add_vars (item nodes 0 2) (item nodes 0 1))),
      Linear (le_const_constr 1 (add_vars (item nodes 0 2) (item nodes 0 1)))]"
    unfolding bulk_constrs_def inner
    using assms by (simp add: left_child_def right_child_def eval_nat_numeral)
  have n: "node_constrs P t input output nodes 0 =
     [Indicator (item nodes 0 1) True
        (TempConstr (var_expr (item input 0 0)) LESS_EQUAL
           (const_expr (convert (float_type P) (threshold t ! 0)))),
      Indicator (item nodes 0 2) True
        (TempConstr (var_expr (item input 0 0)) GREATER_EQUAL
           (const_expr (float_add (convert (float_type P) (threshold t ! 0)) (eps P))))]"
    "node_constrs P t input output nodes 1 =
     [Indicator (item nodes 0 1) True
        (TempConstr (var_expr (item output 0 0)) EQUAL (const_expr (tree_value t ! 1)))]"
    "node_constrs P t input output nodes 2 =
     [Indicator (item nodes 0 2) True
        (TempConstr (var_expr (item output 0 0)) EQUAL (const_expr (tree_value t ! 2)))]"
    unfolding node_constrs_def
    using assms by (simp_all add: left_child_def right_child_def eval_nat_numeral)
  have l: "leaf_constrs t nodes = [Linear (eq_const_constr 1 (sum_expr [item nodes 0 1, item nodes 0 2]))]"
    unfolding leaf_constrs_def leaf
    using assms by (simp add: eval_nat_numeral)
  show ?thesis
    unfolding tree_constrs_def b l assms(1) upt_3
    using n by simp
qed

lemma one_split_holds:
  assumes "capacity t = 3" and "children_left t = [1, - 1, - 1]"
    and "children_right t = [2, - 1, - 1]" and "feature t = [0, - 2, - 2]"
    and "shape0 nodes = 1"
  shows "list_all (holds x) (tree_constrs P t input output nodes) \<longleftrightarrow>
     x (item nodes 0 1) \<le> x (item nodes 0 0) \<and> x (item nodes 0 2) \<le> x (item nodes 0 0) \<and>
     x (item nodes 0 0) \<le> x (item nodes 0 2) + x (item nodes 0 1) \<and>
     x (item nodes 0 2) + x (item nodes 0 1) \<le> 1 \<and>
     (x (item nodes 0 1) = 1 \<longrightarrow> x (item input 0 0) \<le> convert (float_type P) (threshold t ! 0)) \<and>
     (x (item nodes 0 2) = 1 \<longrightarrow>
        float_add (convert (float_type P) (threshold t ! 0)) (eps P) \<le> x (item input 0 0)) \<and>
     (x (item nodes 0 1) = 1 \<longrightarrow> x (item output 0 0) = tree_value t ! 1) \<and>
     (x (item nodes 0 2) = 1 \<longrightarrow> x (item output 0 0) = tree_value t ! 2) \<and>
     x (item nodes 0 1) + x (item nodes 0 2) = 1"
  unfolding one_split_constrs [OF assms]
  by simp

lemma one_split_run:
  assumes t: "capacity t = 3" "children_left t = [1, - 1, - 1]"
    "children_right t = [2, - 1, - 1]" "feature t = [0, - 2, - 2]"
    "length (threshold t) = 3" "length (tree_value t) = 3"
    and p: "dt_tree p = t" "dt_n_outputs p = 1"
    and able: "encodable P t"
  shows "DecisionTreeRegressorConstr P p sample_input sample_output sample_model =
   (Inr (new_mvar sample_model 1 3),
    \<lparr>vars = [\<lparr>VType = CONTINUOUS, LB = - INFINITY, UB = INFINITY\<rparr>,
             \<lparr>VType = CONTINUOUS, LB = Min (set (tree_value t)), UB = Max (set (tree_value t))\<rparr>,
             \<lparr>VType = BINARY, LB = 0, UB = INFINITY\<rparr>,
             \<lparr>VType = BINARY, LB = 0, UB = INFINITY\<rparr>,
             \<lparr>VType = BINARY, LB = 0, UB = INFINITY\<rparr>],
     constrs = tree_constrs P t sample_input sample_output (new_mvar sample_model 1 3)\<rparr>)"
proof -
  have ok: "tree_ok (dt_tree p) (shape1 sample_input)"
    using one_split_ok(1) [OF t] p by simp
  have "with_bounds (vars sample_model @ replicate 3 \<lparr>VType = BINARY, LB = 0, UB = INFINITY\<rparr>)
          sample_output lo hi =
        [\<lparr>VType = CONTINUOUS, LB = - INFINITY, UB = INFINITY\<rparr>,
         \<lparr>VType = CONTINUOUS, LB = lo, UB = hi\<rparr>,
         \<lparr>VType = BINARY, LB = 0, UB = INFINITY\<rparr>,
         \<lparr>VType = BINARY, LB = 0, UB = INFINITY\<rparr>,
         \<lparr>VType = BINARY, LB = 0, UB = INFINITY\<rparr>]" for lo hi
    by (simp add: with_bounds_def sample_model_def upt_conv_Cons eval_nat_numeral)
  then show ?thesis
    using mip_model_ok [OF ok p(2), of sample_output P sample_model] able p t
    by simp
qed

lemma one_split_feasible:
  assumes t: "capacity t = 3" "children_left t = [1, - 1, - 1]"
    "children_right t = [2, - 1, - 1]" "feature t = [0, - 2, - 2]"
    "length (threshold t) = 3" "length (tree_value t) = 3"
    and p: "dt_tree p = t" "dt_n_outputs p = 1"
    and able: "encodable P t"
  shows "feasible (snd (DecisionTreeRegressorConstr P p sample_input sample_output sample_model))
       (solution [a, y, n0, n1, n2]) \<longleftrightarrow>
     admissible \<lparr>VType = CONTINUOUS, LB = Min (set (tree_value t)), UB = Max (set (tree_value t))\<rparr> y \<and>
     (n0 = 0 \<or> n0 = 1) \<and> (n1 = 0 \<or> n1 = 1) \<and> (n2 = 0 \<or> n2 = 1) \<and>
     n1 \<le> n0 \<and> n2 \<le> n0 \<and> n0 \<le> n2 + n1 \<and> n2 + n1 \<le> 1 \<and>
     (n1 = 1 \<longrightarrow> a \<le> convert (float_type P) (threshold t ! 0)) \<and>
     (n2 = 1 \<longrightarrow> float_add (convert (float_type P) (threshold t ! 0)) (eps P) \<le> a) \<and>
     (n1 = 1 \<longrightarrow> y = tree_value t ! 1) \<and> (n2 = 1 \<longrightarrow> y = tree_value t ! 2) \<and> n1 + n2 = 1"
proof -
  have h: "list_all (holds (solution [a, y, n0, n1, n2]))
      (tree_constrs P t sample_input sample_output (new_mvar sample_model 1 3)) \<longleftrightarrow>
     n1 \<le> n0 \<and> n2 \<le> n0 \<and> n0 \<le> n2 + n1 \<and> n2 + n1 \<le> 1 \<and>
     (n1 = 1 \<longrightarrow> a \<le> convert (float_type P) (threshold t ! 0)) \<and>
     (n2 = 1 \<longrightarrow> float_add (convert (float_type P) (threshold t ! 0)) (eps P) \<le> a) \<and>
     (n1 = 1 \<longrightarrow> y = tree_value t ! 1) \<and> (n2 = 1 \<longrightarrow> y = tree_value t ! 2) \<and> n1 + n2 = 1"
    by (subst one_split_holds [OF t(1-4)]) (simp_all add: solution_def eval_nat_numeral)
  show ?thesis
    unfolding one_split_run [OF assms] feasible_def snd_conv model.simps h
    apply (simp add: admissible_def solution_def INFINITY_def upt_conv_Cons eval_nat_numeral)
    apply auto
    done
qed


section \<open>The sample trees, evaluated\<close>

lemma sample_tree_simps:
  "capacity sample_tree = 3"
  "children_left sample_tree = [1, - 1, - 1]"
  "children_right sample_tree = [2, - 1, - 1]"
  "feature sample_tree = [0, - 2, - 2]"
  "threshold sample_tree = [1000 + 1 / 65536, - 2, - 2]"
  "tree_value sample_tree = [15, 10, 20]"
  by (simp_all add: sample_tree_def)

lemma second_tree_simps:
  "capacity second_tree = 3"
  "children_left second_tree = [1, - 1, - 1]"
  "children_right second_tree = [2, - 1, - 1]"
  "feature second_tree = [0, - 2, - 2]"
  "threshold second_tree = [1000 + 1 / 65536, - 2, - 2]"
  "tree_value second_tree = [35, 30, 40]"
  by (simp_all add: second_tree_def sample_tree_def)

lemma stage_tree_simps:
  "capacity stage_tree = 3"
  "children_left stage_tree = [1, - 1, - 1]"
  "children_right stage_tree = [2, - 1, - 1]"
  "feature stage_tree = [0, - 2, - 2]"
  "threshold stage_tree = [1 / 2, - 2, - 2]"
  "tree_value stage_tree = [1 / 5, 10, 20]"
  by (simp_all add: stage_tree_def)

lemma wide_tree_simps:
  "capacity wide_tree = 3"
  "children_left wide_tree = [1, - 1, - 1]"
  "children_right wide_tree = [2, - 1, - 1]"
  "feature wide_tree = [0, - 2, - 2]"
  "threshold wide_tree = [17179869184, - 2, - 2]"
  "tree_value wide_tree = [15, 10, 20]"
  by (simp_all add: wide_tree_def)

lemma zero_tree_simps:
  "capacity zero_tree = 3"
  "children_left zero_tree = [1, - 1, - 1]"
  "children_right zero_tree = [2, - 1, - 1]"
  "feature zero_tree = [0, - 2, - 2]"
  "threshold zero_tree = [0, - 2, - 2]"
  "tree_value zero_tree = [15, 10, 20]"
  by (simp_all add: zero_tree_def)

lemma regressor_simps [simp]:
  "dt_tree sample_regressor = sample_tree" "dt_n_outputs sample_regressor = 1"
  "dt_tree second_regressor = second_tree" "dt_n_outputs second_regressor = 1"
  "dt_tree stage_regressor = stage_tree" "dt_n_outputs stage_regressor = 1"
  "dt_tree wide_regressor = wide_tree" "dt_n_outputs wide_regressor = 1"
  "dt_tree zero_regressor = zero_tree" "dt_n_outputs zero_regressor = 1"
  by (simp_all add: sample_regressor_def second_regressor_def stage_regressor_def
      wide_regressor_def zero_regressor_def)

lemma sample_tree_ok: "tree_ok sample_tree 1"
  by (rule one_split_ok(1)) (simp_all add: sample_tree_simps)

lemma sample_rooted: "rooted sample_tree"
  by (rule one_split_ok(2)) (simp_all add: sample_tree_simps)

lemma second_tree_ok: "tree_ok second_tree 1"
  by (rule one_split_ok(1)) (simp_all add: second_tree_simps)

lemma second_rooted: "rooted second_tree"
  by (rule one_split_ok(2)) (simp_all add: second_tree_simps)

lemma stage_tree_ok: "tree_ok stage_tree 1"
  by (rule one_split_ok(1)) (simp_all add: stage_tree_simps)

lemma wide_tree_ok: "tree_ok wide_tree 1"
  by (rule one_split_ok(1)) (simp_all add: wide_tree_simps)

lemma sample_convert:
  "convert np_float32 (1000 + 1 / 65536) = 1000"
  "convert np_float32 (65536001 / 65536) = 1000"
  "convert np_float32 17179869184 = 17179869184"
  "convert np_float32 (1 / 2) = 1 / 2"
  "convert np_float32 (- 2) = - 2"
  by (simp_all add: round_simps)

lemma sample_float_add:
  "float_add 1000 (eps default_params) = 1000 + 8796093 / 8796093022208"
  "float_add 17179869184 (eps default_params) = 17179869184"
  "float_add (1 / 2) (eps default_params) = 1 / 2 + 9007199255 / 9007199254740992"
  unfolding default_eps
  by (simp_all add: round_simps)

lemma sample_encodable:
  "encodable default_params sample_tree"
  "encodable default_params second_tree"
  "encodable default_params stage_tree"
  "encodable default_params wide_tree"
  unfolding encodable_def
  by (simp_all add: sample_tree_simps second_tree_simps stage_tree_simps wide_tree_simps upt_3
      sample_convert default_eps)
     (simp_all add: round_simps)

lemma sample_margin_kept:
  "margin_kept default_params sample_tree"
  "margin_kept default_params second_tree"
  "margin_kept default_params stage_tree"
  unfolding margin_kept_def
  by (simp_all add: sample_tree_simps second_tree_simps stage_tree_simps upt_3
      sample_convert sample_float_add)

lemma wide_margin_lost: "\<not> margin_kept default_params wide_tree"
  unfolding margin_kept_def
  by (simp add: wide_tree_simps upt_3 sample_convert sample_float_add)

lemma sample_run:
  "DecisionTreeRegressorConstr default_params sample_regressor sample_input sample_output
     sample_model =
   (Inr (new_mvar sample_model 1 3),
    \<lparr>vars = [\<lparr>VType = CONTINUOUS, LB = - INFINITY, UB = INFINITY\<rparr>,
             \<lparr>VType = CONTINUOUS, LB = 10, UB = 20\<rparr>,
             \<lparr>VType = BINARY, LB = 0, UB = INFINITY\<rparr>,
             \<lparr>VType = BINARY, LB = 0, UB = INFINITY\<rparr>,
             \<lparr>VType = BINARY, LB = 0, UB = INFINITY\<rparr>],
     constrs = tree_constrs default_params sample_tree sample_input sample_output
                 (new_mvar sample_model 1 3)\<rparr>)"
  by (subst one_split_run [where t = sample_tree])
    (simp_all add: sample_tree_simps sample_encodable)

lemma sample_feasible:
  "feasible (snd (DecisionTreeRegressorConstr default_params sample_regressor
       sample_input sample_output sample_model)) (solution [a, y, n0, n1, n2]) \<longleftrightarrow>
     10 \<le> y \<and> y \<le> 20 \<and> (n0 = 0 \<or> n0 = 1) \<and> (n1 = 0 \<or> n1 = 1) \<and> (n2 = 0 \<or> n2 = 1) \<and>
     n1 \<le> n0 \<and> n2 \<le> n0 \<and> n0 \<le> n2 + n1 \<and> n2 + n1 \<le> 1 \<and>
     (n1 = 1 \<longrightarrow> a \<le> 1000) \<and> (n2 = 1 \<longrightarrow> 1000 + 8796093 / 8796093022208 \<le> a) \<and>
     (n1 = 1 \<longrightarrow> y = 10) \<and> (n2 = 1 \<longrightarrow> y = 20) \<and> n1 + n2 = 1"
  by (subst one_split_feasible [where t = sample_tree])
    (simp_all add: sample_tree_simps sample_encodable sample_convert sample_float_add
      admissible_def)

lemma wide_feasible:
  "feasible (snd (DecisionTreeRegressorConstr default_params wide_regressor
       sample_input sample_output sample_model)) (solution [a, y, n0, n1, n2]) \<longleftrightarrow>
     10 \<le> y \<and> y \<le> 20 \<and> (n0 = 0 \<or> n0 = 1) \<and> (n1 = 0 \<or> n1 = 1) \<and> (n2 = 0 \<or> n2 = 1) \<and>
     n1 \<le> n0 \<and> n2 \<le> n0 \<and> n0 \<le> n2 + n1 \<and> n2 + n1 \<le> 1 \<and>
     (n1 = 1 \<longrightarrow> a \<le> 17179869184) \<and> (n2 = 1 \<longrightarrow> 17179869184 \<le> a) \<and>
     (n1 = 1 \<longrightarrow> y = 10) \<and> (n2 = 1 \<longrightarrow> y = 20) \<and> n1 + n2 = 1"
  by (subst one_split_feasible [where t = wide_tree])
    (simp_all add: wide_tree_simps sample_encodable sample_convert sample_float_add
      admissible_def)

section \<open>The single-tree encoder and direct evaluation\<close>

text \<open>
  Claim C1, as amended.  For a well-formed rooted tree with one output that the encoder
  gets through, a margin \<^verbatim>\<open>eps\<close> that survives the floating-point sum at every split,
  and every example \<open>k\<close>: the encoder returns, and every feasible solution of the model
  it leaves gives the output variable of the example the value of the leaf reached by
  following the splits on the solution's values of the example's inputs, where each split
  compares with the threshold converted by \<^verbatim>\<open>float_type\<close>.
\<close>

theorem tree_round_trip:
  assumes "tree_ok (dt_tree predictor) (shape1 input)" and "rooted (dt_tree predictor)"
    and "dt_n_outputs predictor = 1"
    and "shape0 input \<le> shape0 output" and "shape1 output = 1"
    and "margin_kept self (dt_tree predictor)"
    and "feasible (snd (DecisionTreeRegressorConstr self predictor input output m)) x"
    and "k < shape0 input"
    and "encodable self (dt_tree predictor)"
  shows "(\<exists>nodes. fst (DecisionTreeRegressorConstr self predictor input output m) = Inr nodes) \<and>
         predict (with_float_type (float_type self) (dt_tree predictor)) (input_values x input k) =
           Some (x (item output k 0))"
proof -
  obtain m' where run: "DecisionTreeRegressorConstr self predictor input output m =
        (Inr (new_mvar m (shape0 input) (capacity (dt_tree predictor))), m')"
    and enc: "tree_encoded self (dt_tree predictor) input output
        (new_mvar m (shape0 input) (capacity (dt_tree predictor))) m'"
    using tree_step [OF assms(1,3,4,5,9)] by blast
  from run assms(7) have "feasible m' x" by simp
  from encoded_round_trip [OF enc this assms(1,2,6,8)] run show ?thesis
    by (simp add: input_values_eq)
qed

text \<open>
  The sample tree with the default parameters and the input 999: the solution that
  activates the root and the left leaf is feasible, and its output is the left leaf's 10.
\<close>

theorem tree_round_trip_witness:
  "tree_ok (dt_tree sample_regressor) (shape1 sample_input) \<and> rooted (dt_tree sample_regressor) \<and>
   dt_n_outputs sample_regressor = 1 \<and> shape0 sample_input \<le> shape0 sample_output \<and>
   shape1 sample_output = 1 \<and> margin_kept default_params (dt_tree sample_regressor) \<and>
   feasible (snd (DecisionTreeRegressorConstr default_params sample_regressor sample_input
                    sample_output sample_model)) (solution [999, 10, 1, 1, 0]) \<and>
   (0::nat) < shape0 sample_input \<and> encodable default_params (dt_tree sample_regressor) \<and>
   (\<exists>nodes. fst (DecisionTreeRegressorConstr default_params sample_regressor sample_input
                    sample_output sample_model) = Inr nodes) \<and>
   predict (with_float_type (float_type default_params) (dt_tree sample_regressor))
     (input_values (solution [999, 10, 1, 1, 0]) sample_input 0) =
     Some (solution [999, 10, 1, 1, 0] (item sample_output 0 0))"
proof -
  have h1: "tree_ok (dt_tree sample_regressor) (shape1 sample_input)"
    using sample_tree_ok by simp
  have h2: "rooted (dt_tree sample_regressor)"
    using sample_rooted by simp
  have h3: "dt_n_outputs sample_regressor = 1" by simp
  have h4: "shape0 sample_input \<le> shape0 sample_output" by simp
  have h5: "shape1 sample_output = 1" by simp
  have h6: "margin_kept default_params (dt_tree sample_regressor)"
    by (simp add: sample_margin_kept)
  have h7: "feasible (snd (DecisionTreeRegressorConstr default_params sample_regressor
      sample_input sample_output sample_model)) (solution [999, 10, 1, 1, 0])"
    by (simp add: sample_feasible)
  have h8: "(0::nat) < shape0 sample_input" by simp
  have h9: "encodable default_params (dt_tree sample_regressor)"
    by (simp add: sample_encodable)
  from tree_round_trip [OF h1 h2 h3 h4 h5 h6 h7 h8 h9] h1 h2 h3 h4 h5 h6 h7 h8 h9
  show ?thesis by blast
qed

text \<open>
  Claim C1 as stated, with the splits of the tree as they are stored, fails in two ways.
  The sample tree splits at \<open>1000 + 2\<^sup>-\<^sup>1\<^sup>6\<close>, which the default \<^verbatim>\<open>float_type\<close> rounds
  to 1000.  With the input fixed to \<open>1000 + 2\<^sup>-\<^sup>1\<^sup>6\<close> the tree itself goes left, to the
  value 10, while the solution that activates the right leaf and gives the output 20 is
  feasible.  The wide tree splits at \<open>2\<^sup>3\<^sup>4\<close>, where the floating-point sum with the
  default \<^verbatim>\<open>eps\<close> is \<open>2\<^sup>3\<^sup>4\<close> again.  With the input fixed to \<open>2\<^sup>3\<^sup>4\<close> the tree goes
  left, to the value 10, while the solution that activates the right leaf and gives the
  output 20 is feasible.
\<close>

theorem tree_round_trip_counterexample:
  "feasible (snd (DecisionTreeRegressorConstr default_params sample_regressor sample_input
                    sample_output sample_model)) (solution [1000 + 1 / 65536, 20, 1, 0, 1]) \<and>
   predict (dt_tree sample_regressor)
     (input_values (solution [1000 + 1 / 65536, 20, 1, 0, 1]) sample_input 0) = Some 10 \<and>
   solution [1000 + 1 / 65536, 20, 1, 0, 1] (item sample_output 0 0) = 20 \<and>
   feasible (snd (DecisionTreeRegressorConstr default_params wide_regressor sample_input
                    sample_output sample_model)) (solution [17179869184, 20, 1, 0, 1]) \<and>
   predict (dt_tree wide_regressor)
     (input_values (solution [17179869184, 20, 1, 0, 1]) sample_input 0) = Some 10 \<and>
   solution [17179869184, 20, 1, 0, 1] (item sample_output 0 0) = 20"
proof -
  have "feasible (snd (DecisionTreeRegressorConstr default_params sample_regressor
      sample_input sample_output sample_model)) (solution [1000 + 1 / 65536, 20, 1, 0, 1])"
    by (simp add: sample_feasible)
  moreover have "predict (dt_tree sample_regressor)
     (input_values (solution [1000 + 1 / 65536, 20, 1, 0, 1]) sample_input 0) = Some 10"
    by (simp add: predict_def sample_tree_def input_values_def solution_def eval_nat_numeral)
  moreover have "solution [1000 + 1 / 65536, 20, 1, 0, 1] (item sample_output 0 0) = 20"
    by (simp add: solution_def)
  moreover have "feasible (snd (DecisionTreeRegressorConstr default_params wide_regressor
      sample_input sample_output sample_model)) (solution [17179869184, 20, 1, 0, 1])"
    by (simp add: wide_feasible)
  moreover have "predict (dt_tree wide_regressor)
     (input_values (solution [17179869184, 20, 1, 0, 1]) sample_input 0) = Some 10"
    by (simp add: predict_def wide_tree_def input_values_def solution_def eval_nat_numeral)
  moreover have "solution [17179869184, 20, 1, 0, 1] (item sample_output 0 0) = 20"
    by (simp add: solution_def)
  ultimately show ?thesis by blast
qed

section \<open>Leaves, parents and thresholds\<close>



text \<open>
  Claim C3.  For every node \<open>n\<close> that is not a leaf, with children \<open>L\<close> and \<open>R\<close>, of a
  tree the encoder gets through, and every example \<open>k\<close>: the four bulk constraints on the activations of \<open>n\<close>, \<open>L\<close> and
  \<open>R\<close> are among the constraints the single-tree encoder adds, and on values from
  \<open>{0, 1}\<close> they hold together exactly when the activation of \<open>n\<close> is the maximum of
  those of \<open>L\<close> and \<open>R\<close> and the activations of \<open>L\<close> and \<open>R\<close> add up to at most 1.
\<close>

theorem parent_is_or_of_children:
  assumes "tree_ok (dt_tree predictor) (shape1 input)" and "dt_n_outputs predictor = 1"
    and "shape0 input \<le> shape0 output" and "shape1 output = 1"
    and "DecisionTreeRegressorConstr self predictor input output m = (r, m')"
    and "k < shape0 input"
    and "n < capacity (dt_tree predictor)" and "0 \<le> children_left (dt_tree predictor) ! n"
    and "L = nat (children_left (dt_tree predictor) ! n)"
    and "R = nat (children_right (dt_tree predictor) ! n)"
    and "encodable self (dt_tree predictor)"
  shows "\<exists>nodes. r = Inr nodes \<and>
           set [Linear (ge_constr (item nodes k n) (item nodes k L)),
                Linear (ge_constr (item nodes k n) (item nodes k R)),
                Linear (le_expr_constr (item nodes k n) (add_vars (item nodes k R) (item nodes k L))),
                Linear (le_const_constr 1 (add_vars (item nodes k R) (item nodes k L)))]
             \<subseteq> set (constrs m') \<and>
           (x (item nodes k n) \<in> {0, 1} \<and> x (item nodes k L) \<in> {0, 1} \<and>
            x (item nodes k R) \<in> {0, 1} \<longrightarrow>
            holds x (Linear (ge_constr (item nodes k n) (item nodes k L))) \<and>
            holds x (Linear (ge_constr (item nodes k n) (item nodes k R))) \<and>
            holds x (Linear (le_expr_constr (item nodes k n)
                       (add_vars (item nodes k R) (item nodes k L)))) \<and>
            holds x (Linear (le_const_constr 1 (add_vars (item nodes k R) (item nodes k L))))
            \<longleftrightarrow>
            x (item nodes k n) = max (x (item nodes k L)) (x (item nodes k R)) \<and>
            x (item nodes k L) + x (item nodes k R) \<le> 1)"
proof -
  let ?t = "dt_tree predictor"
  let ?nodes = "new_mvar m (shape0 input) (capacity ?t)"
  obtain m1 where run: "DecisionTreeRegressorConstr self predictor input output m = (Inr ?nodes, m1)"
    and enc: "tree_encoded self ?t input output ?nodes m1"
    using tree_step [OF assms(1,2,3,4,11)] by blast
  from run assms(5) have r: "r = Inr ?nodes" and m1: "m1 = m'" by simp_all
  have sub: "set (bulk_constrs ?t ?nodes) \<subseteq> set (constrs m')"
    using enc m1 bulk_constrs_subset unfolding tree_encoded_def by blast
  have k: "k < shape0 ?nodes" using assms(6) by simp
  have inner: "n \<in> set (inner_nodes ?t)"
    using assms(7,8) by (simp add: inner_nodes_iff)
  have L: "L = left_child ?t n" and R: "R = right_child ?t n"
    using assms(9,10) by (simp_all add: left_child_def right_child_def)
  have c1: "Linear (ge_constr (item ?nodes k n) (item ?nodes k L)) \<in> set (bulk_constrs ?t ?nodes)"
    unfolding bulk_constrs_def L
    by (rule Linear_mem) (use in_family [OF k inner, where G = "\<lambda>k n. ge_constr (item ?nodes k n) (item ?nodes k (left_child ?t n))"] in blast)
  have c2: "Linear (ge_constr (item ?nodes k n) (item ?nodes k R)) \<in> set (bulk_constrs ?t ?nodes)"
    unfolding bulk_constrs_def R
    by (rule Linear_mem) (use in_family [OF k inner, where G = "\<lambda>k n. ge_constr (item ?nodes k n) (item ?nodes k (right_child ?t n))"] in blast)
  have c3: "Linear (le_expr_constr (item ?nodes k n) (add_vars (item ?nodes k R) (item ?nodes k L)))
      \<in> set (bulk_constrs ?t ?nodes)"
    unfolding bulk_constrs_def L R
    by (rule Linear_mem) (use in_family [OF k inner, where G = "\<lambda>k n. le_expr_constr (item ?nodes k n)
          (add_vars (item ?nodes k (right_child ?t n)) (item ?nodes k (left_child ?t n)))"] in blast)
  have c4: "Linear (le_const_constr 1 (add_vars (item ?nodes k R) (item ?nodes k L)))
      \<in> set (bulk_constrs ?t ?nodes)"
    unfolding bulk_constrs_def L R
    by (rule Linear_mem) (use in_family [OF k inner, where G = "\<lambda>k n. le_const_constr 1
          (add_vars (item ?nodes k (right_child ?t n)) (item ?nodes k (left_child ?t n)))"] in blast)
  have mem: "set [Linear (ge_constr (item ?nodes k n) (item ?nodes k L)),
                Linear (ge_constr (item ?nodes k n) (item ?nodes k R)),
                Linear (le_expr_constr (item ?nodes k n) (add_vars (item ?nodes k R) (item ?nodes k L))),
                Linear (le_const_constr 1 (add_vars (item ?nodes k R) (item ?nodes k L)))]
             \<subseteq> set (constrs m')"
    using c1 c2 c3 c4 sub by auto
  have eq: "x (item ?nodes k n) \<in> {0, 1} \<and> x (item ?nodes k L) \<in> {0, 1} \<and>
            x (item ?nodes k R) \<in> {0, 1} \<longrightarrow>
            (holds x (Linear (ge_constr (item ?nodes k n) (item ?nodes k L))) \<and>
            holds x (Linear (ge_constr (item ?nodes k n) (item ?nodes k R))) \<and>
            holds x (Linear (le_expr_constr (item ?nodes k n)
                       (add_vars (item ?nodes k R) (item ?nodes k L)))) \<and>
            holds x (Linear (le_const_constr 1 (add_vars (item ?nodes k R) (item ?nodes k L)))))
            \<longleftrightarrow>
            (x (item ?nodes k n) = max (x (item ?nodes k L)) (x (item ?nodes k R)) \<and>
            x (item ?nodes k L) + x (item ?nodes k R) \<le> 1)"
    by auto
  from r mem eq show ?thesis by blast
qed

text \<open>The root of the sample tree, with children 1 and 2.\<close>

theorem parent_is_or_of_children_witness:
  "tree_ok (dt_tree sample_regressor) (shape1 sample_input) \<and> dt_n_outputs sample_regressor = 1 \<and>
   shape0 sample_input \<le> shape0 sample_output \<and> shape1 sample_output = 1 \<and>
   (0::nat) < shape0 sample_input \<and> (0::nat) < capacity (dt_tree sample_regressor) \<and>
   0 \<le> children_left (dt_tree sample_regressor) ! 0 \<and>
   (1::nat) = nat (children_left (dt_tree sample_regressor) ! 0) \<and>
   (2::nat) = nat (children_right (dt_tree sample_regressor) ! 0) \<and>
   encodable default_params (dt_tree sample_regressor) \<and>
   (\<exists>nodes. fst (DecisionTreeRegressorConstr default_params sample_regressor sample_input
                    sample_output sample_model) = Inr nodes \<and>
      set [Linear (ge_constr (item nodes 0 0) (item nodes 0 1)),
           Linear (ge_constr (item nodes 0 0) (item nodes 0 2)),
           Linear (le_expr_constr (item nodes 0 0) (add_vars (item nodes 0 2) (item nodes 0 1))),
           Linear (le_const_constr 1 (add_vars (item nodes 0 2) (item nodes 0 1)))]
        \<subseteq> set (constrs (snd (DecisionTreeRegressorConstr default_params sample_regressor
                               sample_input sample_output sample_model))) \<and>
      (solution [999, 10, 1, 1, 0] (item nodes 0 0) \<in> {0, 1} \<and>
       solution [999, 10, 1, 1, 0] (item nodes 0 1) \<in> {0, 1} \<and>
       solution [999, 10, 1, 1, 0] (item nodes 0 2) \<in> {0, 1} \<longrightarrow>
       holds (solution [999, 10, 1, 1, 0]) (Linear (ge_constr (item nodes 0 0) (item nodes 0 1))) \<and>
       holds (solution [999, 10, 1, 1, 0]) (Linear (ge_constr (item nodes 0 0) (item nodes 0 2))) \<and>
       holds (solution [999, 10, 1, 1, 0])
         (Linear (le_expr_constr (item nodes 0 0) (add_vars (item nodes 0 2) (item nodes 0 1)))) \<and>
       holds (solution [999, 10, 1, 1, 0])
         (Linear (le_const_constr 1 (add_vars (item nodes 0 2) (item nodes 0 1))))
       \<longleftrightarrow>
       solution [999, 10, 1, 1, 0] (item nodes 0 0) =
         max (solution [999, 10, 1, 1, 0] (item nodes 0 1)) (solution [999, 10, 1, 1, 0] (item nodes 0 2)) \<and>
       solution [999, 10, 1, 1, 0] (item nodes 0 1) + solution [999, 10, 1, 1, 0] (item nodes 0 2) \<le> 1))"
proof -
  have h1: "tree_ok (dt_tree sample_regressor) (shape1 sample_input)"
    using sample_tree_ok by simp
  have h2: "dt_n_outputs sample_regressor = 1" by simp
  have h3: "shape0 sample_input \<le> shape0 sample_output" by simp
  have h4: "shape1 sample_output = 1" by simp
  have h5: "DecisionTreeRegressorConstr default_params sample_regressor sample_input
      sample_output sample_model =
      (fst (DecisionTreeRegressorConstr default_params sample_regressor sample_input
         sample_output sample_model),
       snd (DecisionTreeRegressorConstr default_params sample_regressor sample_input
         sample_output sample_model))"
    by simp
  have h6: "(0::nat) < shape0 sample_input" by simp
  have h7: "(0::nat) < capacity (dt_tree sample_regressor)"
    by (simp add: sample_tree_simps)
  have h8: "0 \<le> children_left (dt_tree sample_regressor) ! 0"
    by (simp add: sample_tree_simps)
  have h9: "(1::nat) = nat (children_left (dt_tree sample_regressor) ! 0)"
    by (simp add: sample_tree_simps)
  have h10: "(2::nat) = nat (children_right (dt_tree sample_regressor) ! 0)"
    by (simp add: sample_tree_simps)
  have h11: "encodable default_params (dt_tree sample_regressor)"
    by (simp add: sample_encodable)
  from parent_is_or_of_children [OF h1 h2 h3 h4 h5 h6 h7 h8 h9 h10 h11,
      of "solution [999, 10, 1, 1, 0]"] h1 h2 h3 h4 h6 h7 h8 h9 h10 h11
  show ?thesis by blast
qed

text \<open>
  Claim C4, as amended.  For every split node of a tree the encoder gets through and
  every example whose value of the split feature equals the threshold as converted by
  \<^verbatim>\<open>float_type\<close>, when the floating-point sum of the converted threshold and
  \<^verbatim>\<open>eps\<close> is above the converted threshold: in every feasible solution the activation
  of the right child is 0 and the activation of the left child is that of the node.
\<close>

theorem threshold_value_goes_left:
  assumes "tree_ok (dt_tree predictor) (shape1 input)" and "dt_n_outputs predictor = 1"
    and "shape0 input \<le> shape0 output" and "shape1 output = 1"
    and "DecisionTreeRegressorConstr self predictor input output m = (r, m')"
    and "feasible m' x" and "k < shape0 input"
    and "n < capacity (dt_tree predictor)" and "0 \<le> children_left (dt_tree predictor) ! n"
    and "convert (float_type self) (threshold (dt_tree predictor) ! n) <
           float_add (convert (float_type self) (threshold (dt_tree predictor) ! n)) (eps self)"
    and "input_values x input k (nat (feature (dt_tree predictor) ! n)) =
           convert (float_type self) (threshold (dt_tree predictor) ! n)"
    and "encodable self (dt_tree predictor)"
  shows "\<exists>nodes. r = Inr nodes \<and>
           x (item nodes k (nat (children_right (dt_tree predictor) ! n))) = 0 \<and>
           x (item nodes k (nat (children_left (dt_tree predictor) ! n))) = x (item nodes k n)"
proof -
  let ?t = "dt_tree predictor"
  let ?nodes = "new_mvar m (shape0 input) (capacity ?t)"
  obtain m1 where run: "DecisionTreeRegressorConstr self predictor input output m = (Inr ?nodes, m1)"
    and enc: "tree_encoded self ?t input output ?nodes m1"
    using tree_step [OF assms(1,2,3,4,12)] by blast
  from run assms(5) have r: "r = Inr ?nodes" and m1: "m1 = m'" by simp_all
  have feas: "feasible m1 x" using assms(6) m1 by simp
  note sat = encoded_sat [OF enc feas]
  have k: "k < shape0 ?nodes" using assms(7) by simp
  have inner: "n \<in> set (inner_nodes ?t)"
    using assms(8,9) by (simp add: inner_nodes_iff)
  have rc: "right_child ?t n < capacity ?t"
    using tree_ok_inner [OF assms(1) inner] by (simp add: right_child_def)
  have "x (item ?nodes k (right_child ?t n)) \<noteq> 1"
  proof
    assume "x (item ?nodes k (right_child ?t n)) = 1"
    from tree_constrs_inner(6) [OF sat k inner this] assms(10,11)
    show False by (simp add: input_values_def)
  qed
  with encoded_binary [OF enc feas assms(7) rc]
  have zero: "x (item ?nodes k (right_child ?t n)) = 0" by blast
  have "x (item ?nodes k (left_child ?t n)) \<le> x (item ?nodes k n)"
    "x (item ?nodes k n) \<le> x (item ?nodes k (right_child ?t n)) + x (item ?nodes k (left_child ?t n))"
    using tree_constrs_inner(1,3) [OF sat k inner] by simp_all
  with zero have "x (item ?nodes k (left_child ?t n)) = x (item ?nodes k n)" by simp
  with r zero show ?thesis
    by (simp add: left_child_def right_child_def)
qed

text \<open>The sample tree with the input 1000, the converted threshold of its root.\<close>

theorem threshold_value_goes_left_witness:
  "tree_ok (dt_tree sample_regressor) (shape1 sample_input) \<and> dt_n_outputs sample_regressor = 1 \<and>
   shape0 sample_input \<le> shape0 sample_output \<and> shape1 sample_output = 1 \<and>
   feasible (snd (DecisionTreeRegressorConstr default_params sample_regressor sample_input
                    sample_output sample_model)) (solution [1000, 10, 1, 1, 0]) \<and>
   (0::nat) < shape0 sample_input \<and> (0::nat) < capacity (dt_tree sample_regressor) \<and>
   0 \<le> children_left (dt_tree sample_regressor) ! 0 \<and>
   convert (float_type default_params) (threshold (dt_tree sample_regressor) ! 0) <
     float_add (convert (float_type default_params) (threshold (dt_tree sample_regressor) ! 0))
       (eps default_params) \<and>
   input_values (solution [1000, 10, 1, 1, 0]) sample_input 0
       (nat (feature (dt_tree sample_regressor) ! 0)) =
     convert (float_type default_params) (threshold (dt_tree sample_regressor) ! 0) \<and>
   encodable default_params (dt_tree sample_regressor) \<and>
   (\<exists>nodes. fst (DecisionTreeRegressorConstr default_params sample_regressor sample_input
                    sample_output sample_model) = Inr nodes \<and>
      solution [1000, 10, 1, 1, 0] (item nodes 0 (nat (children_right (dt_tree sample_regressor) ! 0))) = 0 \<and>
      solution [1000, 10, 1, 1, 0] (item nodes 0 (nat (children_left (dt_tree sample_regressor) ! 0))) =
        solution [1000, 10, 1, 1, 0] (item nodes 0 0))"
proof -
  have h1: "tree_ok (dt_tree sample_regressor) (shape1 sample_input)"
    using sample_tree_ok by simp
  have h2: "dt_n_outputs sample_regressor = 1" by simp
  have h3: "shape0 sample_input \<le> shape0 sample_output" by simp
  have h4: "shape1 sample_output = 1" by simp
  have h5: "DecisionTreeRegressorConstr default_params sample_regressor sample_input
      sample_output sample_model =
      (fst (DecisionTreeRegressorConstr default_params sample_regressor sample_input
         sample_output sample_model),
       snd (DecisionTreeRegressorConstr default_params sample_regressor sample_input
         sample_output sample_model))"
    by simp
  have h6: "feasible (snd (DecisionTreeRegressorConstr default_params sample_regressor
      sample_input sample_output sample_model)) (solution [1000, 10, 1, 1, 0])"
    by (simp add: sample_feasible)
  have h7: "(0::nat) < shape0 sample_input" by simp
  have h8: "(0::nat) < capacity (dt_tree sample_regressor)"
    by (simp add: sample_tree_simps)
  have h9: "0 \<le> children_left (dt_tree sample_regressor) ! 0"
    by (simp add: sample_tree_simps)
  have h10: "convert (float_type default_params) (threshold (dt_tree sample_regressor) ! 0) <
     float_add (convert (float_type default_params) (threshold (dt_tree sample_regressor) ! 0))
       (eps default_params)"
    by (simp add: sample_tree_simps sample_convert sample_float_add)
  have h11: "input_values (solution [1000, 10, 1, 1, 0]) sample_input 0
       (nat (feature (dt_tree sample_regressor) ! 0)) =
     convert (float_type default_params) (threshold (dt_tree sample_regressor) ! 0)"
    by (simp add: input_values_def solution_def sample_tree_simps sample_convert)
  have h12: "encodable default_params (dt_tree sample_regressor)"
    by (simp add: sample_encodable)
  from threshold_value_goes_left [OF h1 h2 h3 h4 h5 h6 h7 h8 h9 h10 h11 h12]
    h1 h2 h3 h4 h6 h7 h8 h9 h10 h11 h12
  show ?thesis by blast
qed

text \<open>
  Claim C4 as stated, for the stored threshold and the exact sum, fails in two ways.  The
  root of the sample tree stores the threshold \<open>1000 + 2\<^sup>-\<^sup>1\<^sup>6\<close>.  With the input fixed to
  exactly that value and the default parameters, the solution in which the right child is
  active is feasible: the constraints compare with 1000 and with the double next to
  \<open>1000 + 10\<^sup>-\<^sup>6\<close>.  The root of the wide tree stores the threshold \<open>2\<^sup>3\<^sup>4\<close>, which the
  conversion keeps.  With the input fixed to \<open>2\<^sup>3\<^sup>4\<close> and the default parameters, the
  solution in which the right child is active is feasible: the floating-point sum of
  \<open>2\<^sup>3\<^sup>4\<close> and \<^verbatim>\<open>eps\<close> is \<open>2\<^sup>3\<^sup>4\<close>.
\<close>

theorem threshold_value_goes_left_counterexample:
  "feasible (snd (DecisionTreeRegressorConstr default_params sample_regressor sample_input
                    sample_output sample_model)) (solution [1000 + 1 / 65536, 20, 1, 0, 1]) \<and>
   0 < eps default_params \<and>
   input_values (solution [1000 + 1 / 65536, 20, 1, 0, 1]) sample_input 0
       (nat (feature (dt_tree sample_regressor) ! 0)) = threshold (dt_tree sample_regressor) ! 0 \<and>
   fst (DecisionTreeRegressorConstr default_params sample_regressor sample_input
          sample_output sample_model) = Inr (new_mvar sample_model 1 3) \<and>
   solution [1000 + 1 / 65536, 20, 1, 0, 1]
     (item (new_mvar sample_model 1 3) 0 (nat (children_right (dt_tree sample_regressor) ! 0))) = 1 \<and>
   feasible (snd (DecisionTreeRegressorConstr default_params wide_regressor sample_input
                    sample_output sample_model)) (solution [17179869184, 20, 1, 0, 1]) \<and>
   input_values (solution [17179869184, 20, 1, 0, 1]) sample_input 0
       (nat (feature (dt_tree wide_regressor) ! 0)) = threshold (dt_tree wide_regressor) ! 0 \<and>
   convert (float_type default_params) (threshold (dt_tree wide_regressor) ! 0) =
     threshold (dt_tree wide_regressor) ! 0 \<and>
   fst (DecisionTreeRegressorConstr default_params wide_regressor sample_input
          sample_output sample_model) = Inr (new_mvar sample_model 1 3) \<and>
   solution [17179869184, 20, 1, 0, 1]
     (item (new_mvar sample_model 1 3) 0 (nat (children_right (dt_tree wide_regressor) ! 0))) = 1"
proof -
  have "feasible (snd (DecisionTreeRegressorConstr default_params sample_regressor
      sample_input sample_output sample_model)) (solution [1000 + 1 / 65536, 20, 1, 0, 1])"
    by (simp add: sample_feasible)
  moreover have "0 < eps default_params"
    by (simp add: default_eps)
  moreover have "input_values (solution [1000 + 1 / 65536, 20, 1, 0, 1]) sample_input 0
       (nat (feature (dt_tree sample_regressor) ! 0)) = threshold (dt_tree sample_regressor) ! 0"
    by (simp add: input_values_def solution_def sample_tree_simps)
  moreover have "fst (DecisionTreeRegressorConstr default_params sample_regressor
      sample_input sample_output sample_model) = Inr (new_mvar sample_model 1 3)"
    by (simp add: sample_run)
  moreover have "solution [1000 + 1 / 65536, 20, 1, 0, 1]
     (item (new_mvar sample_model 1 3) 0 (nat (children_right (dt_tree sample_regressor) ! 0))) = 1"
    by (simp add: solution_def sample_tree_simps)
  moreover have "feasible (snd (DecisionTreeRegressorConstr default_params wide_regressor
      sample_input sample_output sample_model)) (solution [17179869184, 20, 1, 0, 1])"
    by (simp add: wide_feasible)
  moreover have "input_values (solution [17179869184, 20, 1, 0, 1]) sample_input 0
       (nat (feature (dt_tree wide_regressor) ! 0)) = threshold (dt_tree wide_regressor) ! 0"
    by (simp add: input_values_def solution_def wide_tree_simps)
  moreover have "convert (float_type default_params) (threshold (dt_tree wide_regressor) ! 0) =
     threshold (dt_tree wide_regressor) ! 0"
    by (simp add: wide_tree_simps sample_convert)
  moreover have "fst (DecisionTreeRegressorConstr default_params wide_regressor
      sample_input sample_output sample_model) = Inr (new_mvar sample_model 1 3)"
    by (subst one_split_run [where t = wide_tree])
      (simp_all add: wide_tree_simps sample_encodable)
  moreover have "solution [17179869184, 20, 1, 0, 1]
     (item (new_mvar sample_model 1 3) 0 (nat (children_right (dt_tree wide_regressor) ! 0))) = 1"
    by (simp add: solution_def wide_tree_simps)
  ultimately show ?thesis by blast
qed

section \<open>Bounds, scaling and the converted threshold\<close>

lemma with_bounds_nth:
  "v < length vs \<Longrightarrow> v \<in> set (elements output) \<Longrightarrow>
     with_bounds vs output lo hi ! v = (vs ! v)\<lparr>LB := lo, UB := hi\<rparr>"
  by (simp add: with_bounds_def)

text \<open>
  Claim C8, as amended.  After the single-tree encoding of a tree the encoder gets
  through, the lower and the upper bound of every output variable are the minimum and the maximum over the stored values of all
  nodes of the tree, internal nodes included; the value of every node, so of every leaf,
  lies between the two bounds.
\<close>

theorem output_bounds_over_all_nodes:
  assumes "tree_ok (dt_tree predictor) (shape1 input)" and "dt_n_outputs predictor = 1"
    and "shape0 input \<le> shape0 output" and "shape1 output = 1"
    and "DecisionTreeRegressorConstr self predictor input output m = (r, m')"
    and "v \<in> set (elements output)" and "v < length (vars m)"
    and "n < capacity (dt_tree predictor)"
    and "encodable self (dt_tree predictor)"
  shows "LB (vars m' ! v) = Min (set (tree_value (dt_tree predictor))) \<and>
         UB (vars m' ! v) = Max (set (tree_value (dt_tree predictor))) \<and>
         LB (vars m' ! v) \<le> tree_value (dt_tree predictor) ! n \<and>
         tree_value (dt_tree predictor) ! n \<le> UB (vars m' ! v)"
proof -
  let ?t = "dt_tree predictor"
  obtain m1 where run: "DecisionTreeRegressorConstr self predictor input output m =
        (Inr (new_mvar m (shape0 input) (capacity ?t)), m1)"
    and vs: "vars m1 = with_bounds
        (vars m @ replicate (shape0 input * capacity ?t) \<lparr>VType = BINARY, LB = 0, UB = INFINITY\<rparr>)
        output (Min (set (tree_value ?t))) (Max (set (tree_value ?t)))"
    using tree_step [OF assms(1,2,3,4,9)] by blast
  from run assms(5) have m1: "m1 = m'" by simp
  have b: "LB (vars m' ! v) = Min (set (tree_value ?t))" "UB (vars m' ! v) = Max (set (tree_value ?t))"
    using vs m1 assms(6,7) by (simp_all add: with_bounds_nth)
  have "tree_value ?t ! n \<in> set (tree_value ?t)"
    using assms(1,8) by (simp add: tree_ok_def)
  then have "Min (set (tree_value ?t)) \<le> tree_value ?t ! n" "tree_value ?t ! n \<le> Max (set (tree_value ?t))"
    by simp_all
  with b show ?thesis by simp
qed

text \<open>The boosting stage of the samples, whose output variable is variable 1.\<close>

theorem output_bounds_over_all_nodes_witness:
  "tree_ok (dt_tree stage_regressor) (shape1 sample_input) \<and> dt_n_outputs stage_regressor = 1 \<and>
   shape0 sample_input \<le> shape0 sample_output \<and> shape1 sample_output = 1 \<and>
   (1::nat) \<in> set (elements sample_output) \<and> (1::nat) < length (vars sample_model) \<and>
   (1::nat) < capacity (dt_tree stage_regressor) \<and>
   encodable default_params (dt_tree stage_regressor) \<and>
   LB (vars (snd (DecisionTreeRegressorConstr default_params stage_regressor sample_input
                    sample_output sample_model)) ! 1) = Min (set (tree_value (dt_tree stage_regressor))) \<and>
   UB (vars (snd (DecisionTreeRegressorConstr default_params stage_regressor sample_input
                    sample_output sample_model)) ! 1) = Max (set (tree_value (dt_tree stage_regressor))) \<and>
   LB (vars (snd (DecisionTreeRegressorConstr default_params stage_regressor sample_input
                    sample_output sample_model)) ! 1) \<le> tree_value (dt_tree stage_regressor) ! 1 \<and>
   tree_value (dt_tree stage_regressor) ! 1 \<le>
     UB (vars (snd (DecisionTreeRegressorConstr default_params stage_regressor sample_input
                    sample_output sample_model)) ! 1)"
proof -
  have h1: "tree_ok (dt_tree stage_regressor) (shape1 sample_input)"
    using stage_tree_ok by (simp add: stage_regressor_def)
  have h2: "dt_n_outputs stage_regressor = 1"
    by (simp add: stage_regressor_def)
  have h3: "shape0 sample_input \<le> shape0 sample_output" by simp
  have h4: "shape1 sample_output = 1" by simp
  have h5: "DecisionTreeRegressorConstr default_params stage_regressor sample_input
      sample_output sample_model =
      (fst (DecisionTreeRegressorConstr default_params stage_regressor sample_input
         sample_output sample_model),
       snd (DecisionTreeRegressorConstr default_params stage_regressor sample_input
         sample_output sample_model))"
    by simp
  have h6: "(1::nat) \<in> set (elements sample_output)" by simp
  have h7: "(1::nat) < length (vars sample_model)" by simp
  have h8: "(1::nat) < capacity (dt_tree stage_regressor)"
    by (simp add: stage_regressor_def stage_tree_def)
  have h9: "encodable default_params (dt_tree stage_regressor)"
    by (simp add: sample_encodable)
  from output_bounds_over_all_nodes [OF h1 h2 h3 h4 h5 h6 h7 h8 h9] h1 h2 h3 h4 h6 h7 h8 h9
  show ?thesis by blast
qed

text \<open>
  Claim C8 as stated, with the minimum over the leaf values, fails.  The sample stage has
  the leaf values 10 and 20 and the value \<open>1/5\<close> at its root: the lower bound set on the
  output is \<open>1/5\<close>, while the least leaf value is 10.
\<close>

theorem output_bounds_counterexample:
  "LB (vars (snd (DecisionTreeRegressorConstr default_params stage_regressor sample_input
                    sample_output sample_model)) ! item sample_output 0 0) = 1 / 5 \<and>
   Min (set (map (\<lambda>n. tree_value (dt_tree stage_regressor) ! n)
               (filter (\<lambda>n. children_left (dt_tree stage_regressor) ! n < 0)
                  [0..<capacity (dt_tree stage_regressor)]))) = 10"
proof -
  have h1: "tree_ok (dt_tree stage_regressor) (shape1 sample_input)"
    using stage_tree_ok by (simp add: stage_regressor_def)
  have h2: "dt_n_outputs stage_regressor = 1"
    by (simp add: stage_regressor_def)
  have h9: "encodable default_params (dt_tree stage_regressor)"
    by (simp add: sample_encodable)
  obtain m1 where run: "DecisionTreeRegressorConstr default_params stage_regressor
        sample_input sample_output sample_model =
        (Inr (new_mvar sample_model (shape0 sample_input) (capacity (dt_tree stage_regressor))), m1)"
    and vs: "vars m1 = with_bounds
        (vars sample_model @ replicate (shape0 sample_input * capacity (dt_tree stage_regressor))
           \<lparr>VType = BINARY, LB = 0, UB = INFINITY\<rparr>)
        sample_output (Min (set (tree_value (dt_tree stage_regressor))))
        (Max (set (tree_value (dt_tree stage_regressor))))"
    using tree_step [OF h1 h2 _ _ h9, of sample_output sample_model] by auto
  have "LB (vars m1 ! item sample_output 0 0) = Min (set (tree_value (dt_tree stage_regressor)))"
    unfolding vs by (simp add: with_bounds_nth)
  also have "\<dots> = 1 / 5"
    by (simp add: stage_regressor_def stage_tree_def)
  finally have "LB (vars (snd (DecisionTreeRegressorConstr default_params stage_regressor
      sample_input sample_output sample_model)) ! item sample_output 0 0) = 1 / 5"
    using run by simp
  moreover have "Min (set (map (\<lambda>n. tree_value (dt_tree stage_regressor) ! n)
               (filter (\<lambda>n. children_left (dt_tree stage_regressor) ! n < 0)
                  [0..<capacity (dt_tree stage_regressor)]))) = 10"
    by (simp add: stage_regressor_def stage_tree_def upt_conv_Cons)
  ultimately show ?thesis by blast
qed

text \<open>
  Claim C9.  Whatever the \<^verbatim>\<open>scale\<close> parameter, the single-tree encoder returns what
  it returns with \<^verbatim>\<open>scale = 1\<close>, result and model: the scale computed from the
  threshold and the parameter is replaced by 1 before it is used.
\<close>

theorem scale_has_no_effect:
  "DecisionTreeRegressorConstr (self\<lparr>scale := s\<rparr>) predictor input output m =
   DecisionTreeRegressorConstr (self\<lparr>scale := 1\<rparr>) predictor input output m"
proof -
  have eq: "split_node (self\<lparr>scale := s\<rparr>) = split_node (self\<lparr>scale := 1\<rparr>)"
    by (intro ext) (simp add: split_node_def Let_def cong: if_cong)
  have "DecisionTreeRegressorConstr_mip_model (self\<lparr>scale := s\<rparr>) predictor input output =
      DecisionTreeRegressorConstr_mip_model (self\<lparr>scale := 1\<rparr>) predictor input output"
    by (simp only: DecisionTreeRegressorConstr_mip_model_def eq)
  then show ?thesis
    by (simp only: DecisionTreeRegressorConstr_def AbstractPredictorConstr_init_def)
qed

lemma node_constrs_split_mem:
  assumes "k < shape0 nodes" and "0 \<le> children_left t ! n"
  shows "Indicator (item nodes k (left_child t n)) True
           (TempConstr (var_expr (item input k (nat (feature t ! n)))) LESS_EQUAL
              (const_expr (convert (float_type self) (threshold t ! n))))
         \<in> set (node_constrs self t input output nodes n)"
    and "Indicator (item nodes k (right_child t n)) True
           (TempConstr (var_expr (item input k (nat (feature t ! n)))) GREATER_EQUAL
              (const_expr (float_add (convert (float_type self) (threshold t ! n)) (eps self))))
         \<in> set (node_constrs self t input output nodes n)"
  using assms by (simp_all add: node_constrs_def)

text \<open>
  Claim C10.  For every split node of a tree the encoder gets through and every example,
  the two indicator constraints of the split are in the model with the constant
  \<^verbatim>\<open>float_type(threshold)\<close>, as \<^verbatim>\<open>scale * input <= scale * threshold\<close> and
  \<^verbatim>\<open>scale * input >= scale * threshold + eps\<close> with scale 1 and the sum a
  floating-point sum.  Hence in a feasible solution an input value above the converted
  threshold excludes the left child and an input value below the sum of the converted
  threshold and \<^verbatim>\<open>eps\<close> excludes the right child, wherever the stored threshold lies.
\<close>

theorem split_uses_converted_threshold:
  assumes "tree_ok (dt_tree predictor) (shape1 input)" and "dt_n_outputs predictor = 1"
    and "shape0 input \<le> shape0 output" and "shape1 output = 1"
    and "DecisionTreeRegressorConstr self predictor input output m = (r, m')"
    and "k < shape0 input"
    and "n < capacity (dt_tree predictor)" and "0 \<le> children_left (dt_tree predictor) ! n"
    and "v = item input k (nat (feature (dt_tree predictor) ! n))"
    and "c = convert (float_type self) (threshold (dt_tree predictor) ! n)"
    and "encodable self (dt_tree predictor)"
  shows "\<exists>nodes. r = Inr nodes \<and>
           Indicator (item nodes k (nat (children_left (dt_tree predictor) ! n))) True
             (TempConstr (scale_expr 1 (var_expr v)) LESS_EQUAL (const_expr (1 * c)))
             \<in> set (constrs m') \<and>
           Indicator (item nodes k (nat (children_right (dt_tree predictor) ! n))) True
             (TempConstr (scale_expr 1 (var_expr v)) GREATER_EQUAL
                (const_expr (float_add (1 * c) (eps self))))
             \<in> set (constrs m') \<and>
           (feasible m' x \<longrightarrow>
              (c < x v \<longrightarrow> x (item nodes k (nat (children_left (dt_tree predictor) ! n))) = 0) \<and>
              (x v < float_add c (eps self) \<longrightarrow>
                 x (item nodes k (nat (children_right (dt_tree predictor) ! n))) = 0))"
proof -
  let ?t = "dt_tree predictor"
  let ?nodes = "new_mvar m (shape0 input) (capacity ?t)"
  obtain m1 where run: "DecisionTreeRegressorConstr self predictor input output m = (Inr ?nodes, m1)"
    and enc: "tree_encoded self ?t input output ?nodes m1"
    using tree_step [OF assms(1,2,3,4,11)] by blast
  from run assms(5) have r: "r = Inr ?nodes" and m1: "m1 = m'" by simp_all
  have k: "k < shape0 ?nodes" using assms(6) by simp
  have inner: "n \<in> set (inner_nodes ?t)"
    using assms(7,8) by (simp add: inner_nodes_iff)
  have lc: "left_child ?t n < capacity ?t" and rc: "right_child ?t n < capacity ?t"
    using tree_ok_inner [OF assms(1) inner] by (simp_all add: left_child_def right_child_def)
  have sub: "set (node_constrs self ?t input output ?nodes n) \<subseteq> set (constrs m')"
    using enc m1 node_constrs_subset [OF assms(7)] unfolding tree_encoded_def by blast
  have "Indicator (item ?nodes k (left_child ?t n)) True
          (TempConstr (var_expr v) LESS_EQUAL (const_expr c))
        \<in> set (node_constrs self ?t input output ?nodes n)"
    unfolding assms(9,10) using k assms(8) by (rule node_constrs_split_mem(1))
  with sub have c1: "Indicator (item ?nodes k (left_child ?t n)) True
          (TempConstr (var_expr v) LESS_EQUAL (const_expr c)) \<in> set (constrs m')"
    by blast
  have "Indicator (item ?nodes k (right_child ?t n)) True
          (TempConstr (var_expr v) GREATER_EQUAL (const_expr (float_add c (eps self))))
        \<in> set (node_constrs self ?t input output ?nodes n)"
    unfolding assms(9,10) using k assms(8) by (rule node_constrs_split_mem(2))
  with sub have c2: "Indicator (item ?nodes k (right_child ?t n)) True
          (TempConstr (var_expr v) GREATER_EQUAL (const_expr (float_add c (eps self))))
          \<in> set (constrs m')"
    by blast
  have route: "(c < x v \<longrightarrow> x (item ?nodes k (left_child ?t n)) = 0) \<and>
      (x v < float_add c (eps self) \<longrightarrow> x (item ?nodes k (right_child ?t n)) = 0)"
    if feas: "feasible m' x"
  proof -
    have f1: "feasible m1 x" using feas m1 by simp
    have bl: "x (item ?nodes k (left_child ?t n)) = 0 \<or> x (item ?nodes k (left_child ?t n)) = 1"
      using encoded_binary [OF enc f1 assms(6) lc] .
    have br: "x (item ?nodes k (right_child ?t n)) = 0 \<or> x (item ?nodes k (right_child ?t n)) = 1"
      using encoded_binary [OF enc f1 assms(6) rc] .
    have "holds x (Indicator (item ?nodes k (left_child ?t n)) True
          (TempConstr (var_expr v) LESS_EQUAL (const_expr c)))"
      using feasible_constr [OF feas c1] .
    then have l: "x (item ?nodes k (left_child ?t n)) = 1 \<longrightarrow> x v \<le> c" by simp
    have "holds x (Indicator (item ?nodes k (right_child ?t n)) True
          (TempConstr (var_expr v) GREATER_EQUAL (const_expr (float_add c (eps self)))))"
      using feasible_constr [OF feas c2] .
    then have g: "x (item ?nodes k (right_child ?t n)) = 1 \<longrightarrow> float_add c (eps self) \<le> x v"
      by simp
    from l g bl br show ?thesis by auto
  qed
  from r c1 c2 route show ?thesis
    by (simp add: left_child_def right_child_def)
qed

text \<open>
  The root of the sample tree: the stored threshold \<open>1000 + 2\<^sup>-\<^sup>1\<^sup>6\<close> appears as 1000.
\<close>

theorem split_uses_converted_threshold_witness:
  "tree_ok (dt_tree sample_regressor) (shape1 sample_input) \<and> dt_n_outputs sample_regressor = 1 \<and>
   shape0 sample_input \<le> shape0 sample_output \<and> shape1 sample_output = 1 \<and>
   (0::nat) < shape0 sample_input \<and> (0::nat) < capacity (dt_tree sample_regressor) \<and>
   0 \<le> children_left (dt_tree sample_regressor) ! 0 \<and>
   (0::nat) = item sample_input 0 (nat (feature (dt_tree sample_regressor) ! 0)) \<and>
   (1000::real) = convert (float_type default_params) (threshold (dt_tree sample_regressor) ! 0) \<and>
   encodable default_params (dt_tree sample_regressor) \<and>
   (\<exists>nodes. fst (DecisionTreeRegressorConstr default_params sample_regressor sample_input
                    sample_output sample_model) = Inr nodes \<and>
      Indicator (item nodes 0 (nat (children_left (dt_tree sample_regressor) ! 0))) True
        (TempConstr (scale_expr 1 (var_expr 0)) LESS_EQUAL (const_expr (1 * 1000)))
        \<in> set (constrs (snd (DecisionTreeRegressorConstr default_params sample_regressor
                               sample_input sample_output sample_model))) \<and>
      Indicator (item nodes 0 (nat (children_right (dt_tree sample_regressor) ! 0))) True
        (TempConstr (scale_expr 1 (var_expr 0)) GREATER_EQUAL
           (const_expr (float_add (1 * 1000) (eps default_params))))
        \<in> set (constrs (snd (DecisionTreeRegressorConstr default_params sample_regressor
                               sample_input sample_output sample_model))) \<and>
      (feasible (snd (DecisionTreeRegressorConstr default_params sample_regressor
                        sample_input sample_output sample_model))
         (solution [1000 + 1 / 65536, 20, 1, 0, 1]) \<longrightarrow>
         (1000 < solution [1000 + 1 / 65536, 20, 1, 0, 1] 0 \<longrightarrow>
            solution [1000 + 1 / 65536, 20, 1, 0, 1]
              (item nodes 0 (nat (children_left (dt_tree sample_regressor) ! 0))) = 0) \<and>
         (solution [1000 + 1 / 65536, 20, 1, 0, 1] 0 < float_add 1000 (eps default_params) \<longrightarrow>
            solution [1000 + 1 / 65536, 20, 1, 0, 1]
              (item nodes 0 (nat (children_right (dt_tree sample_regressor) ! 0))) = 0)))"
proof -
  have h1: "tree_ok (dt_tree sample_regressor) (shape1 sample_input)"
    using sample_tree_ok by simp
  have h2: "dt_n_outputs sample_regressor = 1" by simp
  have h3: "shape0 sample_input \<le> shape0 sample_output" by simp
  have h4: "shape1 sample_output = 1" by simp
  have h5: "DecisionTreeRegressorConstr default_params sample_regressor sample_input
      sample_output sample_model =
      (fst (DecisionTreeRegressorConstr default_params sample_regressor sample_input
         sample_output sample_model),
       snd (DecisionTreeRegressorConstr default_params sample_regressor sample_input
         sample_output sample_model))"
    by simp
  have h6: "(0::nat) < shape0 sample_input" by simp
  have h7: "(0::nat) < capacity (dt_tree sample_regressor)"
    by (simp add: sample_tree_simps)
  have h8: "0 \<le> children_left (dt_tree sample_regressor) ! 0"
    by (simp add: sample_tree_simps)
  have h9: "(0::nat) = item sample_input 0 (nat (feature (dt_tree sample_regressor) ! 0))"
    by simp
  have h10: "(1000::real) = convert (float_type default_params) (threshold (dt_tree sample_regressor) ! 0)"
    by (simp add: sample_tree_simps sample_convert)
  have h11: "encodable default_params (dt_tree sample_regressor)"
    by (simp add: sample_encodable)
  from split_uses_converted_threshold [OF h1 h2 h3 h4 h5 h6 h7 h8 h9 h10 h11,
      of "solution [1000 + 1 / 65536, 20, 1, 0, 1]"] h1 h2 h3 h4 h6 h7 h8 h9 h10 h11
  show ?thesis by blast
qed

end
